theory Spec2Isabelle
  imports Main
begin

section \<open>JavaScript strings\<close>

text \<open>
  A JavaScript string is a sequence of UTF-16 code units. It is modelled as a list of
  natural numbers, one per code unit, so that no input string is excluded. String
  literals of the sources are written \<open>js ''...''\<close>.
\<close>

type_synonym jsstring = "nat list"

definition js :: "string \<Rightarrow> jsstring" where
  "js s = map of_char s"

text \<open>The code units the sources test for: line feed and hyphen-minus.\<close>

definition NL :: nat where
  "NL = 10"

definition HYPHEN :: nat where
  "HYPHEN = 45"

text \<open>
  \<open>s.split(sep)\<close> for a separator of one code unit: the pieces between the
  separators, so that the empty string gives one empty piece.
\<close>

fun splitOn :: "nat \<Rightarrow> jsstring \<Rightarrow> jsstring list" where
  "splitOn sep [] = [[]]"
| "splitOn sep (c # cs) =
     (if c = sep then [] # splitOn sep cs
      else (case splitOn sep cs of
              [] \<Rightarrow> [[c]]
            | l # ls \<Rightarrow> (c # l) # ls))"

section \<open>Prompt utilities (src/worker/agents/prompts.ts)\<close>

datatype js_error = Error jsstring

text \<open>
  \<open>PROMPT_UTILS.verifyPrompt\<close>: the check for un-replaced \<open>{{variables}}\<close> is
  commented out in the source, so the only statement left is \<open>return prompt\<close>.
  A thrown exception would be \<open>Inl\<close>.
\<close>

definition verifyPrompt :: "jsstring \<Rightarrow> js_error + jsstring" where
  "verifyPrompt prompt = Inr prompt"

section \<open>Droplet user data (buildDefaultUserData)\<close>

text \<open>The character class \<open>[a-z0-9-]\<close> on code units.\<close>

definition isSafeNameChar :: "nat \<Rightarrow> bool" where
  "isSafeNameChar c = ((97 \<le> c \<and> c \<le> 122) \<or> (48 \<le> c \<and> c \<le> 57) \<or> c = HYPHEN)"

text \<open>\<open>.replace(/[^a-z0-9-]/g, '-')\<close>: every code unit outside the class becomes a hyphen.\<close>

definition replaceUnsafe :: "jsstring \<Rightarrow> jsstring" where
  "replaceUnsafe s = map (\<lambda>c. if isSafeNameChar c then c else HYPHEN) s"

text \<open>\<open>.replace(/-+/g, '-')\<close>: every maximal run of hyphens becomes one hyphen.\<close>

fun collapseHyphens :: "jsstring \<Rightarrow> jsstring" where
  "collapseHyphens [] = []"
| "collapseHyphens [c] = [c]"
| "collapseHyphens (c # d # cs) =
     (if c = HYPHEN \<and> d = HYPHEN then collapseHyphens (d # cs)
      else c # collapseHyphens (d # cs))"

text \<open>
  \<open>.replace(/^-|-$/g, '')\<close>: the global scan removes a hyphen at index 0 (first
  alternative) and, continuing behind it, a hyphen that is the last code unit (second
  alternative).
\<close>

definition stripLeadingHyphen :: "jsstring \<Rightarrow> jsstring" where
  "stripLeadingHyphen s = (case s of [] \<Rightarrow> [] | c # cs \<Rightarrow> if c = HYPHEN then cs else s)"

definition stripTrailingHyphen :: "jsstring \<Rightarrow> jsstring" where
  "stripTrailingHyphen s = (if s \<noteq> [] \<and> last s = HYPHEN then butlast s else s)"

definition stripEdgeHyphens :: "jsstring \<Rightarrow> jsstring" where
  "stripEdgeHyphens s = stripTrailingHyphen (stripLeadingHyphen s)"

text \<open>
  The chain before \<open>|| 'vibe-app'\<close>. \<open>String.prototype.toLowerCase\<close> follows the
  Unicode case mapping, which is not part of the sources: it is the parameter
  \<open>toLowerCase\<close>, an arbitrary function on strings.
\<close>

definition sanitizeName :: "(jsstring \<Rightarrow> jsstring) \<Rightarrow> jsstring \<Rightarrow> jsstring" where
  "sanitizeName toLowerCase appName =
     stripEdgeHyphens (collapseHyphens (replaceUnsafe (toLowerCase appName)))"

text \<open>\<open>const safeName = ... || 'vibe-app'\<close>: the empty string is the only falsy string.\<close>

definition safeName :: "(jsstring \<Rightarrow> jsstring) \<Rightarrow> jsstring \<Rightarrow> jsstring" where
  "safeName toLowerCase appName =
     (let s = sanitizeName toLowerCase appName in if s = [] then js ''vibe-app'' else s)"

text \<open>The two lines of the generated page that embed the name.\<close>

definition titleLine :: "(jsstring \<Rightarrow> jsstring) \<Rightarrow> jsstring \<Rightarrow> jsstring" where
  "titleLine toLowerCase appName =
     js ''  <title>'' @ safeName toLowerCase appName @ js '' deployment</title>''"

definition headingLine :: "(jsstring \<Rightarrow> jsstring) \<Rightarrow> jsstring \<Rightarrow> jsstring" where
  "headingLine toLowerCase appName =
     js ''    <h1>'' @ safeName toLowerCase appName @ js ''</h1>''"

text \<open>No two neighbouring code units are both hyphens.\<close>

fun noDoubleHyphen :: "jsstring \<Rightarrow> bool" where
  "noDoubleHyphen [] = True"
| "noDoubleHyphen [c] = True"
| "noDoubleHyphen (c # d # cs) = (\<not> (c = HYPHEN \<and> d = HYPHEN) \<and> noDoubleHyphen (d # cs))"

section \<open>Phase implementation (PhaseImplementationOperation.execute)\<close>

subsection \<open>Data\<close>

datatype file_format = full_content | unified_diff

text \<open>
  \<open>FileOutputType\<close>, and the entries of \<open>streamingState.completedFiles\<close>, which
  carry the declared format of the file as well.
\<close>

record file_output =
  filePath :: jsstring
  fileContents :: jsstring
  filePurpose :: jsstring

record generated_file = file_output +
  format :: file_format

text \<open>
  A promise of the list \<open>fixedFilePromises\<close>. \<open>Resolved f\<close> is
  \<open>Promise.resolve(f)\<close>. \<open>FixPromise f s\<close> is the promise returned by
  \<open>realtimeCodeFixer.run(f, {query, template}, phase)\<close>: the corrector is not part of
  the sources, so the promise is known by the file it was started for and by its
  settlement \<open>s\<close>, which is \<open>Pending\<close> when the promise is created.
\<close>

datatype settlement = Pending | Fulfilled generated_file | Rejected

datatype promise = Resolved generated_file | FixPromise generated_file settlement

fun promiseInput :: "promise \<Rightarrow> generated_file" where
  "promiseInput (Resolved f) = f"
| "promiseInput (FixPromise f s) = f"

fun routed :: "promise \<Rightarrow> bool" where
  "routed (Resolved f) = False"
| "routed (FixPromise f s) = True"

text \<open>
  \<open>SCOFParsingState\<close> is declared outside the sources; \<open>execute\<close> reads one field
  of it. The state starts as \<open>{}\<close>, where the field is \<open>undefined\<close> (\<open>None\<close>).
\<close>

record scof_parsing_state =
  extractedInstallCommands :: "jsstring list option"

record streaming_state =
  accumulator :: jsstring
  completedFiles :: "jsstring \<rightharpoonup> generated_file"
  parsingState :: scof_parsing_state

datatype log_entry = LogInfo jsstring | LogError jsstring

text \<open>The invocations of the three callbacks of \<open>PhaseImplementationInputs\<close>.\<close>

datatype caller_call =
    FileGenerating jsstring jsstring
  | FileChunkGenerated jsstring jsstring file_format
  | FileClosed generated_file jsstring

text \<open>
  What the closures of \<open>execute\<close> can change: the streaming state, the promise list,
  and, as traces, the logger and the callbacks of the caller.
\<close>

record op_state =
  streamingState :: streaming_state
  fixedFilePromises :: "promise list"
  logged :: "log_entry list"
  calls :: "caller_call list"

text \<open>
  What the closures read and never write: the inputs, \<open>context.allFiles\<close>, and the
  functions that live outside the sources (\<open>FileProcessing.findFilePurpose\<close>,
  \<open>FileProcessing.processGeneratedFileContents\<close>, \<open>IsRealtimeCodeFixerEnabled\<close>), taken
  as parameters. \<open>'p\<close> is \<open>PhaseConceptType\<close>.
\<close>

record 'p op_env =
  phase :: 'p
  isFirstPhase :: bool
  shouldAutoFix :: bool
  IsRealtimeCodeFixerEnabled :: bool
  allFiles :: "file_output list"
  findFilePurpose :: "jsstring \<Rightarrow> 'p \<Rightarrow> (jsstring \<rightharpoonup> file_output) \<Rightarrow> jsstring"
  processGeneratedFileContents :: "generated_file \<Rightarrow> jsstring \<Rightarrow> jsstring"

record phase_implementation_outputs =
  outFixedFilePromises :: "promise list"
  deploymentNeeded :: bool
  commands :: "jsstring list option"

subsection \<open>The callbacks\<close>

text \<open>\<open>inputs.shouldAutoFix && IsRealtimeCodeFixerEnabled(options.inferenceContext)\<close>\<close>

definition shouldEnableRealtimeCodeFixer :: "'p op_env \<Rightarrow> bool" where
  "shouldEnableRealtimeCodeFixer env = (shouldAutoFix env \<and> IsRealtimeCodeFixerEnabled env)"

text \<open>
  \<open>context.allFiles.reduce((acc, f) => ({ ...acc, [f.filePath]: f }), {})\<close>: for a path
  that occurs twice the later file wins.
\<close>

definition allFilesByPath :: "file_output list \<Rightarrow> (jsstring \<rightharpoonup> file_output)" where
  "allFilesByPath fs = foldl (\<lambda>acc f. acc(filePath f \<mapsto> f)) Map.empty fs"

text \<open>\<open>context.allFiles.find(f => f.filePath === filePath)?.fileContents || ''\<close>\<close>

definition originalContentsOf :: "file_output list \<Rightarrow> jsstring \<Rightarrow> jsstring" where
  "originalContentsOf fs p =
     (case find (\<lambda>f. filePath f = p) fs of None \<Rightarrow> [] | Some f \<Rightarrow> fileContents f)"

text \<open>\<open>generatedFile.fileContents.split('\n').length\<close>\<close>

definition lineCount :: "jsstring \<Rightarrow> nat" where
  "lineCount s = length (splitOn NL s)"

definition onFileOpen :: "'p op_env \<Rightarrow> jsstring \<Rightarrow> op_state \<Rightarrow> op_state" where
  "onFileOpen env p st =
     st\<lparr>logged := logged st @ [LogInfo (js ''Starting generation of file: '' @ p)],
        calls := calls st @
          [FileGenerating p (findFilePurpose env p (phase env) (allFilesByPath (allFiles env)))]\<rparr>"

definition onFileChunk :: "jsstring \<Rightarrow> jsstring \<Rightarrow> file_format \<Rightarrow> op_state \<Rightarrow> op_state" where
  "onFileChunk p fileChunk fmt st = st\<lparr>calls := calls st @ [FileChunkGenerated p fileChunk fmt]\<rparr>"

text \<open>
  The file that the close callback builds from the entry of \<open>completedFiles\<close>: the
  entry with its contents processed, then \<open>{...completedFile, filePurpose: ...}\<close>.
\<close>

definition processedFile :: "'p op_env \<Rightarrow> jsstring \<Rightarrow> generated_file \<Rightarrow> generated_file" where
  "processedFile env p completedFile =
     completedFile\<lparr>fileContents :=
       processGeneratedFileContents env completedFile (originalContentsOf (allFiles env) p)\<rparr>"

definition generatedFileOf :: "'p op_env \<Rightarrow> jsstring \<Rightarrow> generated_file \<Rightarrow> generated_file" where
  "generatedFileOf env p completedFile =
     (processedFile env p completedFile)
       \<lparr>filePurpose := findFilePurpose env p (phase env) (allFilesByPath (allFiles env))\<rparr>"

text \<open>The promise pushed for a generated file (the \<open>if\<close> of lines 384 to 399).\<close>

definition promiseFor :: "'p op_env \<Rightarrow> generated_file \<Rightarrow> promise" where
  "promiseFor env generatedFile =
     (if shouldEnableRealtimeCodeFixer env \<and> lineCount (fileContents generatedFile) > 50
      then FixPromise generatedFile Pending
      else Resolved generatedFile)"

text \<open>
  The close callback. The assignment \<open>completedFile.fileContents = ...\<close> writes to the
  object held by the map, so the entry of the map changes too.
\<close>

definition onFileClose :: "'p op_env \<Rightarrow> jsstring \<Rightarrow> op_state \<Rightarrow> op_state" where
  "onFileClose env p st =
     (let st1 = st\<lparr>logged := logged st @ [LogInfo (js ''Completed generation of file: '' @ p)]\<rparr>
      in case completedFiles (streamingState st1) p of
           None \<Rightarrow> st1\<lparr>logged := logged st1 @ [LogError (js ''Completed file not found: '' @ p)]\<rparr>
         | Some completedFile \<Rightarrow>
             (let ss = streamingState st1;
                  generatedFile = generatedFileOf env p completedFile
              in st1\<lparr>streamingState :=
                       ss\<lparr>completedFiles := (completedFiles ss)(p \<mapsto> processedFile env p completedFile)\<rparr>,
                     fixedFilePromises := fixedFilePromises st1 @ [promiseFor env generatedFile],
                     calls := calls st1 @
                       [FileClosed generatedFile (js ''Completed generation of '' @ p)]\<rparr>))"

text \<open>
  The close callback when \<open>FileProcessing.processGeneratedFileContents\<close> can throw.
  The source has no \<open>try\<close> around the call at line 369, so an exception leaves the
  callback there: the assignment to \<open>completedFile.fileContents\<close> and every statement
  after it are not executed. The function \<open>process\<close> stands for the call, \<open>Inl\<close>
  for a thrown exception. The result is the state when the callback is left, and the
  exception that left it, if any. \<open>context.allFiles\<close>, where the prior content of a
  file is looked up, is only read.
\<close>

definition onFileCloseRaising ::
    "'p op_env \<Rightarrow> (generated_file \<Rightarrow> jsstring \<Rightarrow> 'e + jsstring) \<Rightarrow> jsstring \<Rightarrow> op_state
       \<Rightarrow> op_state \<times> 'e option" where
  "onFileCloseRaising env process p st =
     (let st1 = st\<lparr>logged := logged st @ [LogInfo (js ''Completed generation of file: '' @ p)]\<rparr>
      in case completedFiles (streamingState st1) p of
           None \<Rightarrow>
             (st1\<lparr>logged := logged st1 @ [LogError (js ''Completed file not found: '' @ p)]\<rparr>,
              None)
         | Some completedFile \<Rightarrow>
             (case process completedFile (originalContentsOf (allFiles env) p) of
                Inl e \<Rightarrow> (st1, Some e)
              | Inr contents \<Rightarrow>
                  (let ss = streamingState st1;
                       processed = completedFile\<lparr>fileContents := contents\<rparr>;
                       generatedFile = processed
                         \<lparr>filePurpose :=
                            findFilePurpose env p (phase env) (allFilesByPath (allFiles env))\<rparr>
                   in (st1\<lparr>streamingState :=
                             ss\<lparr>completedFiles := (completedFiles ss)(p \<mapsto> processed)\<rparr>,
                           fixedFilePromises :=
                             fixedFilePromises st1 @ [promiseFor env generatedFile],
                           calls := calls st1 @
                             [FileClosed generatedFile (js ''Completed generation of '' @ p)]\<rparr>,
                       None))))"

subsection \<open>The run\<close>

text \<open>
  \<open>SCOFFormat.parseStreamingChunks\<close> and \<open>executeInference\<close> are not part of the sources.
  What they do to this operation, over all chunks of a run, is a sequence of actions:
  the parser changes the streaming state it was handed (\<open>ParserUpdate\<close>, any function
  on it), or it invokes one of the three callbacks.
\<close>

datatype parser_action =
    ParserUpdate "streaming_state \<Rightarrow> streaming_state"
  | FileOpenEvent jsstring
  | FileChunkEvent jsstring jsstring file_format
  | FileCloseEvent jsstring

fun step :: "'p op_env \<Rightarrow> op_state \<Rightarrow> parser_action \<Rightarrow> op_state" where
  "step env st (ParserUpdate f) = st\<lparr>streamingState := f (streamingState st)\<rparr>"
| "step env st (FileOpenEvent p) = onFileOpen env p st"
| "step env st (FileChunkEvent p c fmt) = onFileChunk p c fmt st"
| "step env st (FileCloseEvent p) = onFileClose env p st"

definition initialState :: op_state where
  "initialState =
     \<lparr>streamingState =
        \<lparr>accumulator = [], completedFiles = Map.empty,
         parsingState = \<lparr>extractedInstallCommands = None\<rparr>\<rparr>,
      fixedFilePromises = [], logged = [], calls = []\<rparr>"

definition runStream :: "'p op_env \<Rightarrow> parser_action list \<Rightarrow> op_state \<Rightarrow> op_state" where
  "runStream env actions st = foldl (step env) st actions"

text \<open>
  The state when \<open>await executeInference(...)\<close> returns, for the stream whose
  actions are given. The collaborators are taken to return: when the inference or a
  callback throws, \<open>execute\<close> rejects and there is no output to speak of.
\<close>

definition finalState :: "'p op_env \<Rightarrow> parser_action list \<Rightarrow> op_state" where
  "finalState env actions = runStream env actions initialState"

text \<open>
  The value that \<open>execute\<close> returns. The assembly of the prompt messages, the choice
  of the model configuration and the two \<open>logger.info\<close> calls outside the callbacks
  come before and after the stream and do not reach the three fields of the output.
\<close>

definition execute :: "'p op_env \<Rightarrow> parser_action list \<Rightarrow> phase_implementation_outputs" where
  "execute env actions =
     (let st = finalState env actions
      in \<lparr>outFixedFilePromises = fixedFilePromises st,
          deploymentNeeded = (length (fixedFilePromises st) > 0),
          commands = extractedInstallCommands (parsingState (streamingState st))\<rparr>)"

text \<open>
  A pending correction promise settles some time after it was created; nothing else
  happens to the list the operation returned.
\<close>

fun settle :: "settlement \<Rightarrow> promise \<Rightarrow> promise" where
  "settle s (FixPromise f Pending) = FixPromise f s"
| "settle s pr = pr"

definition settleAt :: "promise list \<Rightarrow> nat \<times> settlement \<Rightarrow> promise list" where
  "settleAt ps e = (if fst e < length ps then ps[fst e := settle (snd e) (ps ! fst e)] else ps)"

definition settleAll :: "(nat \<times> settlement) list \<Rightarrow> promise list \<Rightarrow> promise list" where
  "settleAll es ps = foldl settleAt ps es"

subsection \<open>Observations on a run\<close>

text \<open>The files handed to \<open>inputs.fileClosedCallback\<close>, in the order of the calls.\<close>

fun closedFiles :: "caller_call list \<Rightarrow> generated_file list" where
  "closedFiles [] = []"
| "closedFiles (FileClosed f m # cs) = f # closedFiles cs"
| "closedFiles (c # cs) = closedFiles cs"

text \<open>The actions that invoke a callback, as opposed to the updates by the parser.\<close>

fun isCallback :: "parser_action \<Rightarrow> bool" where
  "isCallback (ParserUpdate f) = False"
| "isCallback a = True"

text \<open>
  The invariant of the run: the promise list is the list of the files handed to
  \<open>fileClosedCallback\<close>, each mapped to its promise.
\<close>

definition promisesMatchCalls :: "'p op_env \<Rightarrow> op_state \<Rightarrow> bool" where
  "promisesMatchCalls env st =
     (fixedFilePromises st = map (promiseFor env) (closedFiles (calls st)))"

text \<open>A state without its log, to compare runs that differ in what they logged only.\<close>

definition unlogged :: "op_state \<Rightarrow> op_state" where
  "unlogged st = st\<lparr>logged := []\<rparr>"

text \<open>The parser's \<open>completedFiles.set(path, file)\<close>, as an action.\<close>

definition storeCompleted :: "jsstring \<Rightarrow> generated_file \<Rightarrow> parser_action" where
  "storeCompleted p f =
     ParserUpdate (\<lambda>ss. ss\<lparr>completedFiles := (completedFiles ss)(p \<mapsto> f)\<rparr>)"

text \<open>The parser's assignment to \<open>parsingState.extractedInstallCommands\<close>, as an action.\<close>

definition storeCommands :: "jsstring list \<Rightarrow> parser_action" where
  "storeCommands cs =
     ParserUpdate (\<lambda>ss. ss\<lparr>parsingState := \<lparr>extractedInstallCommands = Some cs\<rparr>\<rparr>)"

subsection \<open>A concrete run\<close>

text \<open>
  An environment with the fixer enabled, and a file whose contents are \<open>n\<close> line
  feeds, that is \<open>n + 1\<close> lines.
\<close>

definition demoEnv :: "unit op_env" where
  "demoEnv =
     \<lparr>phase = (), isFirstPhase = False, shouldAutoFix = True,
      IsRealtimeCodeFixerEnabled = True, allFiles = [],
      findFilePurpose = (\<lambda>p ph fs. js ''purpose''),
      processGeneratedFileContents = (\<lambda>f original. fileContents f)\<rparr>"

definition demoFile :: "string \<Rightarrow> nat \<Rightarrow> generated_file" where
  "demoFile name n =
     \<lparr>filePath = js name, fileContents = replicate n NL, filePurpose = js ''purpose'',
      format = full_content\<rparr>"

definition demoState :: "string \<Rightarrow> nat \<Rightarrow> op_state" where
  "demoState name n = step demoEnv initialState (storeCompleted (js name) (demoFile name n))"

text \<open>
  A stream that closes \<open>a.py\<close> (51 lines), then \<open>b.py\<close> (49 lines), then
  \<open>c.py\<close> (61 lines).
\<close>

definition demoPrefix :: "parser_action list" where
  "demoPrefix = [storeCompleted (js ''a.py'') (demoFile ''a.py'' 50)]"

definition demoMiddle :: "parser_action list" where
  "demoMiddle =
     [storeCompleted (js ''b.py'') (demoFile ''b.py'' 48), FileCloseEvent (js ''b.py''),
      storeCompleted (js ''c.py'') (demoFile ''c.py'' 60)]"

definition demoRun :: "parser_action list" where
  "demoRun = demoPrefix @ FileCloseEvent (js ''a.py'') # demoMiddle @ FileCloseEvent (js ''c.py'') # []"

text \<open>Lower case for the letters \<open>A\<close> to \<open>Z\<close> only, for concrete runs.\<close>

definition asciiLower :: "jsstring \<Rightarrow> jsstring" where
  "asciiLower s = map (\<lambda>c. if 65 \<le> c \<and> c \<le> 90 then c + 32 else c) s"

section \<open>Streaming format parser\<close>

text \<open>
  The parser (\<open>SCOFFormat.parseStreamingChunks\<close>, module \<open>streaming-formats/scof\<close>) is
  not part of the sources. Every definition of this section is modelled from sections 3,
  4.1 and 6 of the specification.
\<close>

text \<open>
  Modelled from the spec: the three marker classes of the missing parser (file open with
  path and format, file close, command block open and close). The spec does not give
  the text of the sentinel lines, so the grammar is a parameter: \<open>classify\<close> reads a
  complete line, and \<open>isComment\<close> tells the comment lines of a command block.
\<close>

datatype marker =
    FileOpenMarker jsstring file_format
  | FileCloseMarker
  | CommandOpenMarker
  | CommandCloseMarker
  | NoMarker

text \<open>
  Modelled from the spec: the marker syntax of the missing parser, which the spec leaves
  open, as two functions on complete lines.
\<close>

record marker_grammar =
  classify :: "jsstring \<Rightarrow> marker"
  isComment :: "jsstring \<Rightarrow> bool"

text \<open>
  Modelled from the spec: the \<open>PendingFile\<close> of the missing parser (path, declared
  format, raw text so far).
\<close>

record pending_file =
  pendingPath :: jsstring
  pendingFormat :: file_format
  pendingRaw :: jsstring

text \<open>
  Modelled from the spec: the callbacks \<open>onFileOpen(path)\<close>,
  \<open>onContentChunk(path, chunkText, format)\<close> and \<open>onFileClose(path)\<close> of the missing
  parser, as the events it emits.
\<close>

datatype parser_callback =
    OnFileOpen jsstring
  | OnContentChunk jsstring jsstring file_format
  | OnFileClose jsstring

text \<open>
  Modelled from the spec: the \<open>ParsingState\<close> of the missing parser. \<open>lineBuffer\<close>
  holds the characters not yet attributed (the line that has not ended), \<open>currentFile\<close>
  the path and format of the open file, \<open>pendingFiles\<close> the accumulation records by
  path. The mode of the spec is read off \<open>currentFile\<close>: outside a file when it is
  \<open>None\<close>, inside a file body otherwise. The completed-files map, the emitted callbacks
  and the warnings are kept in the same record, so that one value describes everything
  the parser has done.
\<close>

record parser_state = scof_parsing_state +
  lineBuffer :: jsstring
  currentFile :: "(jsstring \<times> file_format) option"
  pendingFiles :: "jsstring \<rightharpoonup> pending_file"
  inCommandBlock :: bool
  completed :: "jsstring \<rightharpoonup> generated_file"
  emitted :: "parser_callback list"
  warnings :: "jsstring list"

text \<open>Modelled from the spec: the state of the missing parser when a run starts.\<close>

definition freshParserState :: parser_state where
  "freshParserState =
     \<lparr>extractedInstallCommands = Some [], lineBuffer = [], currentFile = None,
      pendingFiles = Map.empty, inCommandBlock = False, completed = Map.empty,
      emitted = [], warnings = []\<rparr>"

text \<open>
  Modelled from the spec: the missing parser at a file-open marker. A new pending file
  is registered and \<open>onFileOpen\<close> invoked; when the path was pending already, the new
  open wins, the earlier accumulation is dropped and a warning recorded.
\<close>

definition openFile :: "jsstring \<Rightarrow> file_format \<Rightarrow> parser_state \<Rightarrow> parser_state" where
  "openFile p fmt st =
     st\<lparr>warnings := (if pendingFiles st p \<noteq> None then warnings st @ [p] else warnings st),
        pendingFiles := (pendingFiles st)
          (p \<mapsto> \<lparr>pendingPath = p, pendingFormat = fmt, pendingRaw = []\<rparr>),
        currentFile := Some (p, fmt),
        emitted := emitted st @ [OnFileOpen p]\<rparr>"

text \<open>
  Modelled from the spec: the missing parser at a line of a file body. The line, with
  its line feed, is appended to the raw text of the pending file and forwarded through
  \<open>onContentChunk\<close>. Outside a file the line is inert.
\<close>

definition contentLine :: "jsstring \<Rightarrow> parser_state \<Rightarrow> parser_state" where
  "contentLine line st =
     (case currentFile st of
        None \<Rightarrow> st
      | Some (p, fmt) \<Rightarrow>
          (case pendingFiles st p of
             None \<Rightarrow> st
           | Some pf \<Rightarrow>
               st\<lparr>pendingFiles := (pendingFiles st)
                    (p \<mapsto> pf\<lparr>pendingRaw := pendingRaw pf @ line @ [NL]\<rparr>),
                  emitted := emitted st @ [OnContentChunk p (line @ [NL]) fmt]\<rparr>))"

text \<open>
  Modelled from the spec: the missing parser at a file-close marker. The pending file
  moves into the completed map under its path, \<open>onFileClose\<close> is invoked and the pending
  slot cleared. With no file open the marker is inert.
\<close>

definition closeFile :: "parser_state \<Rightarrow> parser_state" where
  "closeFile st =
     (case currentFile st of
        None \<Rightarrow> st
      | Some (p, fmt) \<Rightarrow>
          (case pendingFiles st p of
             None \<Rightarrow> st\<lparr>currentFile := None\<rparr>
           | Some pf \<Rightarrow>
               st\<lparr>completed := (completed st)
                    (p \<mapsto> \<lparr>filePath = p, fileContents = pendingRaw pf, filePurpose = [],
                           format = pendingFormat pf\<rparr>),
                  emitted := emitted st @ [OnFileClose p],
                  pendingFiles := (pendingFiles st)(p := None),
                  currentFile := None\<rparr>))"

text \<open>
  Modelled from the spec: the missing parser at a line of a command block. A line that
  is not empty and not a comment is appended to \<open>extractedInstallCommands\<close>.
\<close>

definition commandLine :: "marker_grammar \<Rightarrow> jsstring \<Rightarrow> parser_state \<Rightarrow> parser_state" where
  "commandLine g line st =
     (if line \<noteq> [] \<and> \<not> isComment g line
      then st\<lparr>extractedInstallCommands :=
             Some ((case extractedInstallCommands st of None \<Rightarrow> [] | Some cs \<Rightarrow> cs) @ [line])\<rparr>
      else st)"

text \<open>Modelled from the spec: the missing parser at one complete line.\<close>

definition processLine :: "marker_grammar \<Rightarrow> jsstring \<Rightarrow> parser_state \<Rightarrow> parser_state" where
  "processLine g line st =
     (case classify g line of
        FileOpenMarker p fmt \<Rightarrow> openFile p fmt st
      | FileCloseMarker \<Rightarrow> closeFile st
      | CommandOpenMarker \<Rightarrow> st\<lparr>inCommandBlock := True\<rparr>
      | CommandCloseMarker \<Rightarrow> st\<lparr>inCommandBlock := False\<rparr>
      | NoMarker \<Rightarrow> if inCommandBlock st then commandLine g line st else contentLine line st)"

text \<open>
  Modelled from the spec: \<open>parseChunk\<close> of the missing parser. The chunk is appended
  to the buffered characters and the text is cut at the line feeds: every piece but the
  last is a complete line and is handed to \<open>processLine\<close>, in order; the last piece
  is the line that has not ended yet and stays in the buffer. So a marker line may be
  split between two chunks.
\<close>

definition parseChunk :: "marker_grammar \<Rightarrow> jsstring \<Rightarrow> parser_state \<Rightarrow> parser_state" where
  "parseChunk g chunk st =
     (let pieces = splitOn NL (lineBuffer st @ chunk)
      in (foldl (\<lambda>s line. processLine g line s) st (butlast pieces))
           \<lparr>lineBuffer := last pieces\<rparr>)"

text \<open>Modelled from the spec: the chunks of a stream, fed to the missing parser in order.\<close>

definition feedChunks :: "marker_grammar \<Rightarrow> jsstring list \<Rightarrow> parser_state \<Rightarrow> parser_state" where
  "feedChunks g chunks st = foldl (\<lambda>s chunk. parseChunk g chunk s) st chunks"

text \<open>
  Modelled from the spec: the text of a file body as the missing parser reads it, every
  line followed by its line feed.
\<close>

definition bodyText :: "jsstring list \<Rightarrow> jsstring" where
  "bodyText ls = concat (map (\<lambda>l. l @ [NL]) ls)"

text \<open>A grammar with the lines \<open><open a>\<close> and \<open><close>\<close> as markers, for concrete runs.\<close>

definition demoGrammar :: marker_grammar where
  "demoGrammar =
     \<lparr>classify = (\<lambda>l. if l = js ''<open a>'' then FileOpenMarker (js ''a'') full_content
                      else if l = js ''<close>'' then FileCloseMarker
                      else NoMarker),
      isComment = (\<lambda>l. False)\<rparr>"

text \<open>A stream for that grammar: one file \<open>a\<close> with the body line \<open>x\<close>.\<close>

definition demoText :: jsstring where
  "demoText = js ''<open a>'' @ [NL] @ js ''x'' @ [NL] @ js ''<close>'' @ [NL]"

definition demoChunks :: "jsstring list" where
  "demoChunks = [js ''<op'', js ''en a>'' @ [NL] @ js ''x'' @ [NL] @ js ''<clo'', js ''se>'' @ [NL]]"

section \<open>Content reconciler\<close>

text \<open>
  The reconciler (\<open>FileProcessing.processGeneratedFileContents\<close>, module
  \<open>domain/pure/FileProcessing\<close>, and the application of diffs behind it) is not part of
  the sources. Every definition of this section is modelled from sections 4.2, 6 and 7
  of the specification.
\<close>

text \<open>
  Modelled from the spec: the failures of the missing reconciler. \<open>PatchApplicationError\<close>
  is raised when the removed lines of a hunk are not found; \<open>EmptyPatchResult\<close> flags
  the empty result of a diff that the post-processing rejects.
\<close>

datatype reconcile_error = PatchApplicationError | EmptyPatchResult

text \<open>
  Modelled from the spec: a hunk of a unified diff for the missing reconciler, in the
  high-level convention: the lines removed and the lines added, without their prefix.
\<close>

record hunk =
  removed :: "jsstring list"
  added :: "jsstring list"

text \<open>
  Modelled from the spec: the diff reader of the missing reconciler. A line beginning
  \<open>@@\<close> starts a hunk; inside a hunk a line beginning \<open>-\<close> is removed text, a line
  beginning \<open>+\<close> is added text, and any other line is context, which is ignored. Lines
  before the first hunk are ignored.
\<close>

definition startsHunk :: "jsstring \<Rightarrow> bool" where
  "startsHunk l = (take 2 l = js ''@@'')"

text \<open>
  Modelled from the spec: the missing diff reader inside a hunk. It collects the removed
  and the added lines up to the next hunk header and returns the lines that are left.
\<close>

fun hunkBody :: "hunk \<Rightarrow> jsstring list \<Rightarrow> hunk \<times> jsstring list" where
  "hunkBody h [] = (h, [])"
| "hunkBody h (l # ls) =
     (if startsHunk l then (h, l # ls)
      else if take 1 l = js ''-'' then hunkBody (h\<lparr>removed := removed h @ [drop 1 l]\<rparr>) ls
      else if take 1 l = js ''+'' then hunkBody (h\<lparr>added := added h @ [drop 1 l]\<rparr>) ls
      else hunkBody h ls)"

lemma hunkBody_length: "length (snd (hunkBody h ls)) \<le> length ls"
  by (induction h ls rule: hunkBody.induct) auto

text \<open>Modelled from the spec: the missing diff reader, from the lines of a diff to its hunks.\<close>

function parseHunks :: "jsstring list \<Rightarrow> hunk list" where
  "parseHunks [] = []"
| "parseHunks (l # ls) =
     (if startsHunk l
      then fst (hunkBody \<lparr>removed = [], added = []\<rparr> ls)
             # parseHunks (snd (hunkBody \<lparr>removed = [], added = []\<rparr> ls))
      else parseHunks ls)"
  by pat_completeness auto
termination
  by (relation "measure length") (auto simp: hunkBody_length less_Suc_eq_le)

text \<open>
  Modelled from the spec: the search of the missing reconciler for the block of removed
  lines, top to bottom; the first match wins.
\<close>

fun startsWith :: "'a list \<Rightarrow> 'a list \<Rightarrow> bool" where
  "startsWith ls [] = True"
| "startsWith [] (b # bs) = False"
| "startsWith (l # ls) (b # bs) = (l = b \<and> startsWith ls bs)"

text \<open>
  Modelled from the spec: the index of the first match of the block in the lines of the
  missing reconciler's search, \<open>None\<close> when there is no match.
\<close>

fun findBlock :: "'a list \<Rightarrow> 'a list \<Rightarrow> nat option" where
  "findBlock block [] = (if block = [] then Some 0 else None)"
| "findBlock block (l # ls) =
     (if startsWith (l # ls) block then Some 0 else map_option Suc (findBlock block ls))"

text \<open>
  Modelled from the spec: the missing reconciler applying one hunk. Every hunk of a diff
  is taken against the previous version of the file, and the spec locates the block of
  removed lines in the prior content: a block that does not occur there is a
  \<open>PatchApplicationError\<close>. The added lines take the place of the block in the lines
  as the earlier hunks have left them, at the first match; a block that an earlier hunk
  has consumed is not found either.
\<close>

definition applyHunk ::
    "jsstring list \<Rightarrow> hunk \<Rightarrow> jsstring list \<Rightarrow> reconcile_error + jsstring list" where
  "applyHunk priorLines h ls =
     (case findBlock (removed h) priorLines of
        None \<Rightarrow> Inl PatchApplicationError
      | Some located \<Rightarrow>
          (case findBlock (removed h) ls of
             None \<Rightarrow> Inl PatchApplicationError
           | Some i \<Rightarrow> Inr (take i ls @ added h @ drop (i + length (removed h)) ls)))"

text \<open>
  Modelled from the spec: the hunks of the missing reconciler applied in order, each to
  the result of the one before; the first failure ends the application.
\<close>

fun applyHunks ::
    "jsstring list \<Rightarrow> hunk list \<Rightarrow> jsstring list \<Rightarrow> reconcile_error + jsstring list" where
  "applyHunks priorLines [] ls = Inr ls"
| "applyHunks priorLines (h # hs) ls =
     (case applyHunk priorLines h ls of
        Inl e \<Rightarrow> Inl e
      | Inr ls' \<Rightarrow> applyHunks priorLines hs ls')"

text \<open>Modelled from the spec: lines joined with line feeds, the inverse of \<open>splitOn NL\<close>.\<close>

fun joinLines :: "jsstring list \<Rightarrow> jsstring" where
  "joinLines [] = []"
| "joinLines [l] = l"
| "joinLines (l # m # ls) = l @ NL # joinLines (m # ls)"

text \<open>
  Modelled from the spec: the post-processing of the missing reconciler, which trims a
  single trailing line feed.
\<close>

definition normalizeTrailingNewline :: "jsstring \<Rightarrow> jsstring" where
  "normalizeTrailingNewline s = (if s \<noteq> [] \<and> last s = NL then butlast s else s)"

text \<open>
  Modelled from the spec: the missing reconciler. For \<open>full_content\<close> the raw body is
  taken verbatim; for \<open>unified_diff\<close> the hunks are applied to the prior content. The
  post-processing follows: the trailing line feed is trimmed, and an empty result of a
  diff on a prior content that was not empty is rejected.
\<close>

definition reconcile ::
    "file_format \<Rightarrow> jsstring \<Rightarrow> jsstring \<Rightarrow> reconcile_error + jsstring" where
  "reconcile fmt raw prior =
     (case fmt of
        full_content \<Rightarrow> Inr (normalizeTrailingNewline raw)
      | unified_diff \<Rightarrow>
          (case applyHunks (splitOn NL prior) (parseHunks (splitOn NL raw)) (splitOn NL prior) of
             Inl e \<Rightarrow> Inl e
           | Inr ls \<Rightarrow>
               (let c = normalizeTrailingNewline (joinLines ls)
                in if c = [] \<and> prior \<noteq> [] then Inl EmptyPatchResult else Inr c)))"


text \<open>A diff that replaces \<open>line2\<close> by \<open>lineX\<close>, for concrete runs.\<close>

definition demoDiff :: jsstring where
  "demoDiff = js ''@@ -2,1 +2,1 @@'' @ [NL] @ js ''-line2'' @ [NL] @ js ''+lineX''"

text \<open>
  A diff of two hunks, the first replacing \<open>a\<close> by \<open>b\<close>, the second \<open>b\<close> by
  \<open>c\<close>, for concrete runs.
\<close>

definition demoTwoHunks :: jsstring where
  "demoTwoHunks =
     js ''@@'' @ [NL] @ js ''-a'' @ [NL] @ js ''+b'' @ [NL]
       @ js ''@@'' @ [NL] @ js ''-b'' @ [NL] @ js ''+c''"




section \<open>Properties of the prompt utilities\<close>

text \<open>
  Claim C9: for every input string, \<open>PROMPT_UTILS.verifyPrompt\<close> returns its argument
  unchanged and never throws, also when the prompt still holds a \<open>{{variable}}\<close>
  placeholder: the result is always the normal return \<open>Inr\<close> of the argument.
\<close>

theorem verifyPrompt_returns_argument:
  "verifyPrompt prompt = Inr prompt
   \<and> verifyPrompt (before @ js ''{{variable}}'' @ after) = Inr (before @ js ''{{variable}}'' @ after)"
  by (simp add: verifyPrompt_def)

section \<open>Properties of the sanitized droplet name\<close>

lemma set_collapseHyphens: "set (collapseHyphens s) \<subseteq> set s"
  by (induction s rule: collapseHyphens.induct) auto

lemma hd_collapseHyphens:
  "s \<noteq> [] \<Longrightarrow> collapseHyphens s \<noteq> [] \<and> hd (collapseHyphens s) = hd s"
  by (induction s rule: collapseHyphens.induct) auto

lemma noDoubleHyphen_collapseHyphens: "noDoubleHyphen (collapseHyphens s)"
proof (induction s rule: collapseHyphens.induct)
  case (3 c d cs)
  then show ?case
    using hd_collapseHyphens [of "d # cs"]
    by (cases "collapseHyphens (d # cs)") auto
qed simp_all

lemma noDoubleHyphen_tl: "noDoubleHyphen (c # cs) \<Longrightarrow> noDoubleHyphen cs"
  by (cases cs) auto

lemma noDoubleHyphen_butlast: "noDoubleHyphen s \<Longrightarrow> noDoubleHyphen (butlast s)"
  by (induction s rule: noDoubleHyphen.induct) (auto split: if_splits)

lemma noDoubleHyphen_last:
  "noDoubleHyphen s \<Longrightarrow> s \<noteq> [] \<Longrightarrow> last s = HYPHEN \<Longrightarrow> butlast s \<noteq> [] \<Longrightarrow>
     last (butlast s) \<noteq> HYPHEN"
  by (induction s rule: noDoubleHyphen.induct) (auto split: if_splits)

lemma noDoubleHyphen_stripLeading:
  "noDoubleHyphen s \<Longrightarrow> noDoubleHyphen (stripLeadingHyphen s)"
  by (auto simp: stripLeadingHyphen_def dest: noDoubleHyphen_tl split: list.splits)

lemma noDoubleHyphen_stripEdge: "noDoubleHyphen s \<Longrightarrow> noDoubleHyphen (stripEdgeHyphens s)"
  by (simp add: stripEdgeHyphens_def stripTrailingHyphen_def noDoubleHyphen_butlast
      noDoubleHyphen_stripLeading)

lemma set_stripEdge: "set (stripEdgeHyphens s) \<subseteq> set s"
  by (auto simp: stripEdgeHyphens_def stripLeadingHyphen_def stripTrailingHyphen_def
      dest: in_set_butlastD split: list.splits if_splits)

lemma hd_stripLeading:
  "noDoubleHyphen s \<Longrightarrow> stripLeadingHyphen s \<noteq> [] \<Longrightarrow> hd (stripLeadingHyphen s) \<noteq> HYPHEN"
  by (cases s rule: noDoubleHyphen.cases) (auto simp: stripLeadingHyphen_def)

lemma hd_butlast: "butlast s \<noteq> [] \<Longrightarrow> hd (butlast s) = hd s"
  by (cases s) auto

lemma hd_stripEdge:
  "noDoubleHyphen s \<Longrightarrow> stripEdgeHyphens s \<noteq> [] \<Longrightarrow> hd (stripEdgeHyphens s) \<noteq> HYPHEN"
  using hd_stripLeading [of s]
  by (auto simp: stripEdgeHyphens_def stripTrailingHyphen_def hd_butlast split: if_splits)

lemma last_stripEdge:
  "noDoubleHyphen s \<Longrightarrow> stripEdgeHyphens s \<noteq> [] \<Longrightarrow> last (stripEdgeHyphens s) \<noteq> HYPHEN"
  using noDoubleHyphen_last [of "stripLeadingHyphen s"] noDoubleHyphen_stripLeading [of s]
  by (auto simp: stripEdgeHyphens_def stripTrailingHyphen_def split: if_splits)

lemma safe_replaceUnsafe: "c \<in> set (replaceUnsafe s) \<Longrightarrow> isSafeNameChar c"
  by (auto simp: replaceUnsafe_def isSafeNameChar_def)

lemma sanitizeName_safe: "c \<in> set (sanitizeName lower a) \<Longrightarrow> isSafeNameChar c"
  using set_stripEdge set_collapseHyphens safe_replaceUnsafe
  unfolding sanitizeName_def by blast

lemma js_vibe_app: "js ''vibe-app'' = [118, 105, 98, 101, 45, 97, 112, 112]"
  by (simp add: js_def)

text \<open>
  Claim C10: for every \<open>appName\<close>, and whatever \<open>toLowerCase\<close> returns, the name that
  \<open>buildDefaultUserData\<close> embeds in the page is not empty, holds only the code units of
  \<open>a\<close> to \<open>z\<close> (97 to 122), of \<open>0\<close> to \<open>9\<close> (48 to 57) and the hyphen (45), has no
  two hyphens in a row, and neither starts nor ends with a hyphen; when the sanitized
  name is empty, the name is \<open>vibe-app\<close>, and otherwise it is the sanitized name. Both
  lines of the page that show the name embed this name.
\<close>

theorem safeName_wellformed:
  "safeName toLowerCase appName \<noteq> []
   \<and> (\<forall>c \<in> set (safeName toLowerCase appName).
        (97 \<le> c \<and> c \<le> 122) \<or> (48 \<le> c \<and> c \<le> 57) \<or> c = 45)
   \<and> noDoubleHyphen (safeName toLowerCase appName)
   \<and> hd (safeName toLowerCase appName) \<noteq> 45
   \<and> last (safeName toLowerCase appName) \<noteq> 45
   \<and> (sanitizeName toLowerCase appName = [] \<longrightarrow> safeName toLowerCase appName = js ''vibe-app'')
   \<and> (sanitizeName toLowerCase appName \<noteq> [] \<longrightarrow>
        safeName toLowerCase appName = sanitizeName toLowerCase appName)
   \<and> titleLine toLowerCase appName =
        js ''  <title>'' @ safeName toLowerCase appName @ js '' deployment</title>''
   \<and> headingLine toLowerCase appName = js ''    <h1>'' @ safeName toLowerCase appName @ js ''</h1>''"
proof (cases "sanitizeName toLowerCase appName = []")
  case True
  then have "safeName toLowerCase appName = js ''vibe-app''"
    by (simp add: safeName_def)
  moreover have "js ''vibe-app'' \<noteq> []"
    by (simp add: js_vibe_app)
  moreover have "\<forall>c \<in> set (js ''vibe-app'').
      (97 \<le> c \<and> c \<le> 122) \<or> (48 \<le> c \<and> c \<le> 57) \<or> c = 45"
    by (simp add: js_vibe_app)
  moreover have "noDoubleHyphen (js ''vibe-app'')"
    by (simp add: js_vibe_app HYPHEN_def)
  moreover have "hd (js ''vibe-app'') \<noteq> 45" "last (js ''vibe-app'') \<noteq> 45"
    by (simp_all add: js_vibe_app)
  ultimately show ?thesis
    using True by (simp add: titleLine_def headingLine_def)
next
  case False
  then have eq: "safeName toLowerCase appName = sanitizeName toLowerCase appName"
    by (simp add: safeName_def)
  have nd: "noDoubleHyphen (collapseHyphens (replaceUnsafe (toLowerCase appName)))"
    by (rule noDoubleHyphen_collapseHyphens)
  have "noDoubleHyphen (sanitizeName toLowerCase appName)"
    unfolding sanitizeName_def using nd by (rule noDoubleHyphen_stripEdge)
  moreover have "hd (sanitizeName toLowerCase appName) \<noteq> HYPHEN"
    using False nd unfolding sanitizeName_def by (simp add: hd_stripEdge)
  moreover have "last (sanitizeName toLowerCase appName) \<noteq> HYPHEN"
    using False nd unfolding sanitizeName_def by (simp add: last_stripEdge)
  moreover have "\<forall>c \<in> set (sanitizeName toLowerCase appName). isSafeNameChar c"
    using sanitizeName_safe by blast
  ultimately show ?thesis
    using False eq by (simp add: isSafeNameChar_def HYPHEN_def titleLine_def headingLine_def)
qed

lemma demo_sanitizeName:
  "sanitizeName asciiLower (js ''--My  App!'') = js ''my-app''"
  "sanitizeName asciiLower (js ''!!!'') = []"
  "js ''my-app'' \<noteq> []"
  by code_simp+

theorem safeName_wellformed_witness:
  "sanitizeName asciiLower (js ''--My  App!'') \<noteq> []
   \<and> safeName asciiLower (js ''--My  App!'') = js ''my-app''
   \<and> sanitizeName asciiLower (js ''!!!'') = []
   \<and> safeName asciiLower (js ''!!!'') = js ''vibe-app''"
  using safeName_wellformed [of asciiLower "js ''--My  App!''"]
    safeName_wellformed [of asciiLower "js ''!!!''"]
  by (simp add: demo_sanitizeName)

section \<open>Properties of the phase implementation\<close>

subsection \<open>Runs and the close callback\<close>

lemma closedFiles_append: "closedFiles (xs @ ys) = closedFiles xs @ closedFiles ys"
  by (induction xs rule: closedFiles.induct) simp_all

lemma runStream_append: "runStream env (xs @ ys) st = runStream env ys (runStream env xs st)"
  by (simp add: runStream_def)

lemma runStream_Cons: "runStream env (a # xs) st = runStream env xs (step env st a)"
  by (simp add: runStream_def)

lemma runStream_Nil: "runStream env [] st = st"
  by (simp add: runStream_def)

lemma onFileClose_found:
  "completedFiles (streamingState st) p = Some cf \<Longrightarrow>
   onFileClose env p st =
     st\<lparr>logged := logged st @ [LogInfo (js ''Completed generation of file: '' @ p)],
        streamingState := (streamingState st)
          \<lparr>completedFiles := (completedFiles (streamingState st))(p \<mapsto> processedFile env p cf)\<rparr>,
        fixedFilePromises := fixedFilePromises st @ [promiseFor env (generatedFileOf env p cf)],
        calls := calls st @
          [FileClosed (generatedFileOf env p cf) (js ''Completed generation of '' @ p)]\<rparr>"
  by (simp add: onFileClose_def Let_def)

lemma onFileClose_missing:
  "completedFiles (streamingState st) p = None \<Longrightarrow>
   onFileClose env p st =
     st\<lparr>logged := logged st @ [LogInfo (js ''Completed generation of file: '' @ p),
                              LogError (js ''Completed file not found: '' @ p)]\<rparr>"
  by (simp add: onFileClose_def Let_def)

lemma promisesMatchCalls_step:
  "promisesMatchCalls env st \<Longrightarrow> promisesMatchCalls env (step env st a)"
proof (cases a)
  case (FileCloseEvent p)
  assume "promisesMatchCalls env st"
  then show ?thesis
    using FileCloseEvent
    by (cases "completedFiles (streamingState st) p")
       (simp_all add: promisesMatchCalls_def onFileClose_found onFileClose_missing
          closedFiles_append)
qed (simp_all add: promisesMatchCalls_def onFileOpen_def onFileChunk_def closedFiles_append)

lemma promisesMatchCalls_run:
  "promisesMatchCalls env st \<Longrightarrow> promisesMatchCalls env (runStream env actions st)"
  by (induction actions arbitrary: st)
     (simp_all add: runStream_Nil runStream_Cons promisesMatchCalls_step)

lemma promisesMatchCalls_final: "promisesMatchCalls env (finalState env actions)"
  unfolding finalState_def
  by (rule promisesMatchCalls_run) (simp add: promisesMatchCalls_def initialState_def)

lemma final_promises:
  "fixedFilePromises (finalState env actions)
     = map (promiseFor env) (closedFiles (calls (finalState env actions)))"
  using promisesMatchCalls_final [of env actions] by (simp add: promisesMatchCalls_def)

lemma routed_promiseFor:
  "routed (promiseFor env f)
     = (shouldEnableRealtimeCodeFixer env \<and> 50 < lineCount (fileContents f))"
  by (simp add: promiseFor_def)

lemma promiseInput_promiseFor: "promiseInput (promiseFor env f) = f"
  by (simp add: promiseFor_def)

lemma step_not_close_promises:
  "(\<forall>p. a \<noteq> FileCloseEvent p) \<Longrightarrow> fixedFilePromises (step env st a) = fixedFilePromises st"
  by (cases a) (simp_all add: onFileOpen_def onFileChunk_def)

lemma promises_grow:
  "\<exists>ps. fixedFilePromises (runStream env actions st) = fixedFilePromises st @ ps"
proof (induction actions arbitrary: st)
  case Nil
  show ?case by (simp add: runStream_Nil)
next
  case (Cons a actions)
  have "\<exists>qs. fixedFilePromises (step env st a) = fixedFilePromises st @ qs"
  proof (cases a)
    case (FileCloseEvent p)
    then show ?thesis
      by (cases "completedFiles (streamingState st) p")
         (simp_all add: onFileClose_found onFileClose_missing)
  qed (simp_all add: onFileOpen_def onFileChunk_def)
  then obtain qs where qs: "fixedFilePromises (step env st a) = fixedFilePromises st @ qs" ..
  obtain ps where "fixedFilePromises (runStream env actions (step env st a))
      = fixedFilePromises (step env st a) @ ps"
    using Cons.IH by blast
  then show ?case
    by (simp add: runStream_Cons qs)
qed

subsection \<open>The concrete run\<close>

lemma length_splitOn: "length (splitOn sep s) = Suc (count_list s sep)"
  by (induction s) (auto split: list.splits)

lemma lineCount_replicate: "lineCount (replicate n NL) = Suc n"
  by (induction n) (simp_all add: lineCount_def)

lemma demoFile_lines: "lineCount (fileContents (demoFile name n)) = Suc n"
  by (simp add: demoFile_def lineCount_replicate)

lemma demoFile_generated: "generatedFileOf demoEnv p (demoFile name n) = demoFile name n"
  by (simp add: generatedFileOf_def processedFile_def demoEnv_def demoFile_def)

lemma demoFile_processed: "processedFile demoEnv p (demoFile name n) = demoFile name n"
  by (simp add: processedFile_def demoEnv_def demoFile_def)

lemma demoEnv_enabled: "shouldEnableRealtimeCodeFixer demoEnv"
  by (simp add: shouldEnableRealtimeCodeFixer_def demoEnv_def)

lemma demoState_simps:
  "completedFiles (streamingState (demoState name n)) (js name) = Some (demoFile name n)"
  "fixedFilePromises (demoState name n) = []"
  "calls (demoState name n) = []"
  by (simp_all add: demoState_def storeCompleted_def initialState_def)

lemma demo_names: "js ''a.py'' \<noteq> js ''b.py''" "js ''a.py'' \<noteq> js ''c.py''"
  "js ''b.py'' \<noteq> js ''c.py''" "js ''b.py'' \<noteq> js ''a.py''" "js ''c.py'' \<noteq> js ''a.py''"
  "js ''c.py'' \<noteq> js ''b.py''"
  by (simp_all add: js_def)

lemma demoPrefix_state:
  "completedFiles (streamingState (runStream demoEnv demoPrefix initialState)) (js ''a.py'')
     = Some (demoFile ''a.py'' 50)"
  "fixedFilePromises (runStream demoEnv demoPrefix initialState) = []"
  by (simp_all add: runStream_def demoPrefix_def storeCompleted_def initialState_def)

lemma demoMiddle_state:
  "completedFiles (streamingState
      (runStream demoEnv (demoPrefix @ FileCloseEvent (js ''a.py'') # demoMiddle) initialState))
      (js ''c.py'') = Some (demoFile ''c.py'' 60)"
  "fixedFilePromises
      (runStream demoEnv (demoPrefix @ FileCloseEvent (js ''a.py'') # demoMiddle) initialState)
     = [FixPromise (demoFile ''a.py'' 50) Pending, Resolved (demoFile ''b.py'' 48)]"
  by (simp_all add: runStream_def demoPrefix_def demoMiddle_def storeCompleted_def
      initialState_def onFileClose_def Let_def demo_names demoFile_generated demoFile_processed
      promiseFor_def demoEnv_enabled demoFile_lines)

lemma demoRun_final:
  "fixedFilePromises (finalState demoEnv demoRun)
     = [FixPromise (demoFile ''a.py'' 50) Pending, Resolved (demoFile ''b.py'' 48),
        FixPromise (demoFile ''c.py'' 60) Pending]"
  "closedFiles (calls (finalState demoEnv demoRun))
     = [demoFile ''a.py'' 50, demoFile ''b.py'' 48, demoFile ''c.py'' 60]"
  by (simp_all add: finalState_def runStream_def demoRun_def demoPrefix_def demoMiddle_def
      storeCompleted_def initialState_def onFileClose_def Let_def demo_names
      demoFile_generated demoFile_processed promiseFor_def demoEnv_enabled demoFile_lines)

lemma demoRun_out:
  "outFixedFilePromises (execute demoEnv demoRun)
     = [FixPromise (demoFile ''a.py'' 50) Pending, Resolved (demoFile ''b.py'' 48),
        FixPromise (demoFile ''c.py'' 60) Pending]"
  by (simp add: execute_def Let_def demoRun_final)

subsection \<open>Routing through the correction pass\<close>

text \<open>
  Claim C1: a file closed during a run is routed through the asynchronous correction
  pass if and only if the realtime-fixer flag is on and its reconciled content has more
  than 50 lines. The flag is the constant \<open>shouldEnableRealtimeCodeFixer\<close> of
  \<open>execute\<close>, that is \<open>inputs.shouldAutoFix && IsRealtimeCodeFixerEnabled(...)\<close>; the
  lines are counted as the source counts them, \<open>split('\n').length\<close>. First part: when
  the close callback finds the file, it appends one promise, for the generated file,
  and that promise is a correction promise exactly under the condition; with 49 lines
  it never is, with 51 lines and the flag on it is. Second part: the same equivalence
  holds for every promise of the list that \<open>execute\<close> returns, for every stream.
  Last part: the flag is on exactly when \<open>inputs.shouldAutoFix\<close> and
  \<open>IsRealtimeCodeFixerEnabled\<close> both hold, and the number of lines of a content is one
  more than the number of its line feeds.
\<close>

theorem correction_routing:
  "(completedFiles (streamingState st) p = Some cf \<longrightarrow>
      (\<exists>pr. fixedFilePromises (onFileClose env p st) = fixedFilePromises st @ [pr]
         \<and> promiseInput pr = generatedFileOf env p cf
         \<and> routed pr = (shouldEnableRealtimeCodeFixer env
              \<and> 50 < lineCount (fileContents (generatedFileOf env p cf)))
         \<and> (lineCount (fileContents (generatedFileOf env p cf)) = 49 \<longrightarrow> \<not> routed pr)
         \<and> (shouldEnableRealtimeCodeFixer env
              \<and> lineCount (fileContents (generatedFileOf env p cf)) = 51 \<longrightarrow> routed pr)))
   \<and> (\<forall>pr \<in> set (outFixedFilePromises (execute env actions)).
         routed pr = (shouldEnableRealtimeCodeFixer env
           \<and> 50 < lineCount (fileContents (promiseInput pr))))
   \<and> shouldEnableRealtimeCodeFixer env = (shouldAutoFix env \<and> IsRealtimeCodeFixerEnabled env)
   \<and> lineCount contents = Suc (count_list contents NL)"
proof (intro conjI impI)
  show "shouldEnableRealtimeCodeFixer env = (shouldAutoFix env \<and> IsRealtimeCodeFixerEnabled env)"
    by (simp add: shouldEnableRealtimeCodeFixer_def)
next
  show "lineCount contents = Suc (count_list contents NL)"
    by (simp add: lineCount_def length_splitOn)
next
  assume found: "completedFiles (streamingState st) p = Some cf"
  let ?gf = "generatedFileOf env p cf"
  have "fixedFilePromises (onFileClose env p st) = fixedFilePromises st @ [promiseFor env ?gf]"
    using found by (simp add: onFileClose_found)
  moreover have "promiseInput (promiseFor env ?gf) = ?gf"
    by (rule promiseInput_promiseFor)
  moreover have "routed (promiseFor env ?gf)
      = (shouldEnableRealtimeCodeFixer env \<and> 50 < lineCount (fileContents ?gf))"
    by (rule routed_promiseFor)
  ultimately show "\<exists>pr. fixedFilePromises (onFileClose env p st) = fixedFilePromises st @ [pr]
         \<and> promiseInput pr = ?gf
         \<and> routed pr = (shouldEnableRealtimeCodeFixer env \<and> 50 < lineCount (fileContents ?gf))
         \<and> (lineCount (fileContents ?gf) = 49 \<longrightarrow> \<not> routed pr)
         \<and> (shouldEnableRealtimeCodeFixer env \<and> lineCount (fileContents ?gf) = 51
              \<longrightarrow> routed pr)"
    by auto
next
  show "\<forall>pr \<in> set (outFixedFilePromises (execute env actions)).
         routed pr = (shouldEnableRealtimeCodeFixer env
           \<and> 50 < lineCount (fileContents (promiseInput pr)))"
    using final_promises [of env actions]
    by (auto simp: execute_def Let_def routed_promiseFor promiseInput_promiseFor)
qed

theorem correction_routing_witness:
  "completedFiles (streamingState (demoState ''a.py'' 50)) (js ''a.py'')
     = Some (demoFile ''a.py'' 50)
   \<and> shouldEnableRealtimeCodeFixer demoEnv
   \<and> lineCount (fileContents (generatedFileOf demoEnv (js ''a.py'') (demoFile ''a.py'' 50))) = 51
   \<and> (\<exists>pr. fixedFilePromises (onFileClose demoEnv (js ''a.py'') (demoState ''a.py'' 50)) = [pr]
         \<and> routed pr)
   \<and> completedFiles (streamingState (demoState ''b.py'' 48)) (js ''b.py'')
     = Some (demoFile ''b.py'' 48)
   \<and> lineCount (fileContents (generatedFileOf demoEnv (js ''b.py'') (demoFile ''b.py'' 48))) = 49
   \<and> (\<exists>pr. fixedFilePromises (onFileClose demoEnv (js ''b.py'') (demoState ''b.py'' 48)) = [pr]
         \<and> \<not> routed pr)
   \<and> map routed (outFixedFilePromises (execute demoEnv demoRun)) = [True, False, True]"
  using correction_routing [of "demoState ''a.py'' 50" "js ''a.py''" "demoFile ''a.py'' 50"
      demoEnv demoRun "[]"]
    correction_routing [of "demoState ''b.py'' 48" "js ''b.py''" "demoFile ''b.py'' 48"
      demoEnv demoRun "[]"]
  by (auto simp add: demoState_simps demoFile_generated demoFile_lines demoEnv_enabled
      demoRun_out)

subsection \<open>One promise for every closed file\<close>

text \<open>
  Claim C2: for every file whose close event fires, exactly one promise is appended to
  \<open>fixedFilePromises\<close>: a correction promise when the file is eligible, otherwise an
  already resolved promise that wraps the generated file unchanged. A file whose close
  event fires is a path with an entry in \<open>completedFiles\<close> when the callback runs; the
  file is then also handed to \<open>inputs.fileClosedCallback\<close>. No other action of the
  parser changes the list. Hence, when the stream has ended, the returned list holds
  one promise for every closed file, in the same order: it is the list of the files
  handed to \<open>fileClosedCallback\<close>, each mapped to its promise.
\<close>

theorem one_promise_per_closed_file:
  "(completedFiles (streamingState st) p = Some cf \<longrightarrow>
      fixedFilePromises (step env st (FileCloseEvent p)) =
        fixedFilePromises st @
          [if shouldEnableRealtimeCodeFixer env
               \<and> 50 < lineCount (fileContents (generatedFileOf env p cf))
           then FixPromise (generatedFileOf env p cf) Pending
           else Resolved (generatedFileOf env p cf)]
      \<and> closedFiles (calls (step env st (FileCloseEvent p))) =
          closedFiles (calls st) @ [generatedFileOf env p cf])
   \<and> ((\<forall>q. a \<noteq> FileCloseEvent q) \<longrightarrow>
        fixedFilePromises (step env st a) = fixedFilePromises st)
   \<and> outFixedFilePromises (execute env actions) =
        map (promiseFor env) (closedFiles (calls (finalState env actions)))
   \<and> length (outFixedFilePromises (execute env actions)) =
        length (closedFiles (calls (finalState env actions)))"
proof -
  have out: "outFixedFilePromises (execute env actions)
      = fixedFilePromises (finalState env actions)"
    by (simp add: execute_def Let_def)
  show ?thesis
    using final_promises [of env actions] out
    by (auto simp: onFileClose_found promiseFor_def closedFiles_append step_not_close_promises
        simp del: map_eq_conv)
qed

theorem one_promise_per_closed_file_witness:
  "completedFiles (streamingState (demoState ''a.py'' 50)) (js ''a.py'')
     = Some (demoFile ''a.py'' 50)
   \<and> fixedFilePromises (step demoEnv (demoState ''a.py'' 50) (FileCloseEvent (js ''a.py'')))
     = [FixPromise (demoFile ''a.py'' 50) Pending]
   \<and> closedFiles (calls (step demoEnv (demoState ''a.py'' 50) (FileCloseEvent (js ''a.py''))))
     = [demoFile ''a.py'' 50]
   \<and> fixedFilePromises (step demoEnv (demoState ''a.py'' 50) (FileOpenEvent (js ''a.py''))) = []
   \<and> length (outFixedFilePromises (execute demoEnv demoRun)) = 3"
  using one_promise_per_closed_file [of "demoState ''a.py'' 50" "js ''a.py''"
      "demoFile ''a.py'' 50" demoEnv "FileOpenEvent (js ''a.py'')" demoRun]
  by (simp add: demoState_simps demoFile_generated demoFile_lines demoEnv_enabled demoRun_final)

subsection \<open>The promise list follows the close order\<close>

lemma promiseInput_settle: "promiseInput (settle s pr) = promiseInput pr"
  by (cases "(s, pr)" rule: settle.cases) simp_all

lemma map_promiseInput_settleAt: "map promiseInput (settleAt ps e) = map promiseInput ps"
  by (simp add: settleAt_def map_update promiseInput_settle list_update_same_conv)

lemma map_promiseInput_settleAll: "map promiseInput (settleAll es ps) = map promiseInput ps"
  unfolding settleAll_def
  by (induction es arbitrary: ps) (simp_all add: map_promiseInput_settleAt)

lemma length_settleAll: "length (settleAll es ps) = length ps"
  using map_promiseInput_settleAll [of es ps] by (metis length_map)

lemma promiseInput_settleAll_nth:
  "i < length ps \<Longrightarrow> promiseInput (settleAll es ps ! i) = promiseInput (ps ! i)"
  using map_promiseInput_settleAll [of es ps] length_settleAll [of es ps]
  by (metis nth_map)

text \<open>
  Claim C3: the list of promises that the operation returns is in file-close order,
  whichever correction settles first. First part: let the close event of \<open>a\<close> come
  before the close event of \<open>b\<close> in the stream, each finding its file. The promise of
  \<open>a\<close> stands at the index that is the length of the list just before \<open>a\<close> closes,
  the promise of \<open>b\<close> at the length of the list just before \<open>b\<close> closes; the first
  index is the smaller one, and this holds after any sequence \<open>es\<close> of settlements of
  the promises. Second part: for every stream and every sequence of settlements, the
  files of the promises, in list order, are the files handed to \<open>fileClosedCallback\<close>,
  in call order.
\<close>

theorem promises_in_close_order:
  "(completedFiles (streamingState (runStream env xs initialState)) a = Some fa
    \<and> completedFiles (streamingState (runStream env (xs @ FileCloseEvent a # ys) initialState)) b
        = Some fb
    \<longrightarrow>
      length (fixedFilePromises (runStream env xs initialState))
        < length (fixedFilePromises (runStream env (xs @ FileCloseEvent a # ys) initialState))
    \<and> length (fixedFilePromises (runStream env (xs @ FileCloseEvent a # ys) initialState))
        < length (settleAll es (outFixedFilePromises
            (execute env (xs @ FileCloseEvent a # ys @ FileCloseEvent b # zs))))
    \<and> promiseInput
         (settleAll es (outFixedFilePromises
            (execute env (xs @ FileCloseEvent a # ys @ FileCloseEvent b # zs)))
          ! length (fixedFilePromises (runStream env xs initialState)))
        = generatedFileOf env a fa
    \<and> promiseInput
         (settleAll es (outFixedFilePromises
            (execute env (xs @ FileCloseEvent a # ys @ FileCloseEvent b # zs)))
          ! length (fixedFilePromises (runStream env (xs @ FileCloseEvent a # ys) initialState)))
        = generatedFileOf env b fb)
   \<and> map promiseInput (settleAll es (outFixedFilePromises (execute env actions)))
        = closedFiles (calls (finalState env actions))"
proof (intro conjI impI)
  let ?s0 = "runStream env xs initialState"
  let ?s1 = "runStream env (xs @ FileCloseEvent a # ys) initialState"
  let ?out = "outFixedFilePromises (execute env (xs @ FileCloseEvent a # ys @ FileCloseEvent b # zs))"
  let ?pa = "promiseFor env (generatedFileOf env a fa)"
  let ?pb = "promiseFor env (generatedFileOf env b fb)"
  assume found: "completedFiles (streamingState ?s0) a = Some fa
    \<and> completedFiles (streamingState ?s1) b = Some fb"
  have sa: "fixedFilePromises (step env ?s0 (FileCloseEvent a)) = fixedFilePromises ?s0 @ [?pa]"
    using found by (simp add: onFileClose_found)
  obtain ps where ps: "fixedFilePromises ?s1 = fixedFilePromises ?s0 @ ?pa # ps"
    using promises_grow [of env ys "step env ?s0 (FileCloseEvent a)"] sa
    by (auto simp: runStream_append runStream_Cons)
  have sb: "fixedFilePromises (step env ?s1 (FileCloseEvent b)) = fixedFilePromises ?s1 @ [?pb]"
    using found by (simp add: onFileClose_found)
  obtain qs where qs: "?out = fixedFilePromises ?s1 @ ?pb # qs"
  proof -
    have "?out = fixedFilePromises (runStream env zs (step env ?s1 (FileCloseEvent b)))"
      by (simp add: execute_def Let_def finalState_def runStream_append runStream_Cons)
    then show ?thesis
      using promises_grow [of env zs "step env ?s1 (FileCloseEvent b)"] sb that by auto
  qed
  show "length (fixedFilePromises ?s0) < length (fixedFilePromises ?s1)"
    by (simp add: ps)
  show "length (fixedFilePromises ?s1) < length (settleAll es ?out)"
    by (simp add: length_settleAll qs)
  have ia: "length (fixedFilePromises ?s0) < length ?out"
    by (simp add: qs ps)
  have "?out ! length (fixedFilePromises ?s0) = ?pa"
    by (simp add: qs ps nth_append)
  then show "promiseInput (settleAll es ?out ! length (fixedFilePromises ?s0))
      = generatedFileOf env a fa"
    using promiseInput_settleAll_nth [OF ia, of es] by (simp add: promiseInput_promiseFor)
  have ib: "length (fixedFilePromises ?s1) < length ?out"
    by (simp add: qs)
  have "?out ! length (fixedFilePromises ?s1) = ?pb"
    by (simp add: qs nth_append)
  then show "promiseInput (settleAll es ?out ! length (fixedFilePromises ?s1))
      = generatedFileOf env b fb"
    using promiseInput_settleAll_nth [OF ib, of es] by (simp add: promiseInput_promiseFor)
next
  show "map promiseInput (settleAll es (outFixedFilePromises (execute env actions)))
        = closedFiles (calls (finalState env actions))"
    using final_promises [of env actions]
    by (simp add: map_promiseInput_settleAll execute_def Let_def o_def promiseInput_promiseFor)
qed

text \<open>
  In the concrete run the correction of \<open>c.py\<close> settles first and the one of \<open>a.py\<close>
  last; the list still reads \<open>a.py\<close>, \<open>b.py\<close>, \<open>c.py\<close>.
\<close>

lemma demo_settled:
  "settleAll [(2, Fulfilled (demoFile ''c.py'' 60)), (0, Rejected)]
     [FixPromise (demoFile ''a.py'' 50) Pending, Resolved (demoFile ''b.py'' 48),
      FixPromise (demoFile ''c.py'' 60) Pending]
   = [FixPromise (demoFile ''a.py'' 50) Rejected, Resolved (demoFile ''b.py'' 48),
      FixPromise (demoFile ''c.py'' 60) (Fulfilled (demoFile ''c.py'' 60))]"
  by (simp add: settleAll_def settleAt_def)

theorem promises_in_close_order_witness:
  "completedFiles (streamingState (runStream demoEnv demoPrefix initialState)) (js ''a.py'')
     = Some (demoFile ''a.py'' 50)
   \<and> completedFiles (streamingState
        (runStream demoEnv (demoPrefix @ FileCloseEvent (js ''a.py'') # demoMiddle) initialState))
        (js ''c.py'') = Some (demoFile ''c.py'' 60)
   \<and> settleAll [(2, Fulfilled (demoFile ''c.py'' 60)), (0, Rejected)]
        (outFixedFilePromises (execute demoEnv demoRun))
      = [FixPromise (demoFile ''a.py'' 50) Rejected, Resolved (demoFile ''b.py'' 48),
         FixPromise (demoFile ''c.py'' 60) (Fulfilled (demoFile ''c.py'' 60))]
   \<and> map promiseInput
        (settleAll [(2, Fulfilled (demoFile ''c.py'' 60)), (0, Rejected)]
          (outFixedFilePromises (execute demoEnv demoRun)))
      = [demoFile ''a.py'' 50, demoFile ''b.py'' 48, demoFile ''c.py'' 60]"
  using promises_in_close_order [of demoEnv demoPrefix "js ''a.py''" "demoFile ''a.py'' 50"
      demoMiddle "js ''c.py''" "demoFile ''c.py'' 60"
      "[(2, Fulfilled (demoFile ''c.py'' 60)), (0, Rejected)]" "[]" demoRun]
  by (simp add: demoPrefix_state demoMiddle_state demoRun_out demoRun_final demo_settled)

subsection \<open>The commands of the output\<close>

lemma callback_keeps_parsingState:
  "isCallback a \<Longrightarrow>
     parsingState (streamingState (step env st a)) = parsingState (streamingState st)"
proof (cases a)
  case (FileCloseEvent p)
  then show ?thesis
    by (cases "completedFiles (streamingState st) p")
       (simp_all add: onFileClose_found onFileClose_missing)
qed (simp_all add: onFileOpen_def onFileChunk_def)

lemma callbacks_keep_parsingState:
  "list_all isCallback ys \<Longrightarrow>
     parsingState (streamingState (runStream env ys st)) = parsingState (streamingState st)"
  by (induction ys arbitrary: st)
     (simp_all add: runStream_Nil runStream_Cons callback_keeps_parsingState)

text \<open>
  Claim C4: the \<open>commands\<close> of the output are the \<open>extractedInstallCommands\<close> of the
  final parsing state, the same value with nothing removed, added or reordered. The
  callbacks of the operation never change the parsing state, so after the last update
  by the parser the output holds what the parser left there.
\<close>

theorem commands_from_parsing_state:
  "commands (execute env actions) =
     extractedInstallCommands (parsingState (streamingState (finalState env actions)))
   \<and> (isCallback a \<longrightarrow>
        parsingState (streamingState (step env st a)) = parsingState (streamingState st))
   \<and> (list_all isCallback ys \<longrightarrow>
        commands (execute env (xs @ ParserUpdate f # ys)) =
          extractedInstallCommands
            (parsingState (f (streamingState (runStream env xs initialState)))))"
  by (simp add: execute_def Let_def finalState_def runStream_append runStream_Cons
      callback_keeps_parsingState callbacks_keep_parsingState)

theorem commands_from_parsing_state_witness:
  "isCallback (FileCloseEvent (js ''a.py''))
   \<and> list_all isCallback [FileOpenEvent (js ''a.py''), FileCloseEvent (js ''a.py'')]
   \<and> commands (execute demoEnv
        (demoPrefix @ storeCommands [js ''pip install x'', js ''pip install x'']
           # [FileOpenEvent (js ''a.py''), FileCloseEvent (js ''a.py'')]))
      = Some [js ''pip install x'', js ''pip install x'']"
  using commands_from_parsing_state [of demoEnv demoRun "FileCloseEvent (js ''a.py'')"
      initialState "[FileOpenEvent (js ''a.py''), FileCloseEvent (js ''a.py'')]" demoPrefix
      "\<lambda>ss. ss\<lparr>parsingState :=
         \<lparr>extractedInstallCommands = Some [js ''pip install x'', js ''pip install x'']\<rparr>\<rparr>"]
  by (simp add: storeCommands_def)

subsection \<open>A close event without a completed file\<close>

lemma unlogged_step: "unlogged (step env st a) = unlogged (step env (unlogged st) a)"
proof (cases a)
  case (FileCloseEvent p)
  then show ?thesis
    by (cases "completedFiles (streamingState st) p")
       (simp_all add: unlogged_def onFileClose_def Let_def)
qed (simp_all add: unlogged_def onFileOpen_def onFileChunk_def)

lemma unlogged_run:
  "unlogged (runStream env actions st) = unlogged (runStream env actions (unlogged st))"
proof (induction actions arbitrary: st)
  case Nil
  show ?case by (simp add: runStream_Nil unlogged_def)
next
  case (Cons a actions)
  have "unlogged (runStream env (a # actions) st)
      = unlogged (runStream env actions (unlogged (step env st a)))"
    using Cons.IH [of "step env st a"] by (simp add: runStream_Cons)
  also have "\<dots> = unlogged (runStream env actions (unlogged (step env (unlogged st) a)))"
    by (simp add: unlogged_step [of env st a])
  also have "\<dots> = unlogged (runStream env (a # actions) (unlogged st))"
    using Cons.IH [of "step env (unlogged st) a"] by (simp add: runStream_Cons)
  finally show ?case .
qed

lemma unlogged_eq_run:
  "unlogged s = unlogged t \<Longrightarrow>
     unlogged (runStream env actions s) = unlogged (runStream env actions t)"
  using unlogged_run [of env actions s] unlogged_run [of env actions t] by simp

lemma unlogged_fields:
  "unlogged s = unlogged t \<Longrightarrow>
     streamingState s = streamingState t \<and> fixedFilePromises s = fixedFilePromises t
     \<and> calls s = calls t"
  unfolding unlogged_def
  by (metis op_state.select_convs(1,2,4) op_state.surjective op_state.update_convs(3))

text \<open>
  Claim C8: when the close callback fires for a path that has no entry in
  \<open>completedFiles\<close>, the operation logs the error \<open>Completed file not found\<close> and
  returns: no promise is appended, \<open>fileClosedCallback\<close> is not invoked, and the
  streaming state is left as it was; only the log grows. Such a close event leaves the
  outputs as if it had never happened: the stream with the event and the stream without
  it give the same output of \<open>execute\<close> and the same calls to the caller's callbacks.
\<close>

theorem close_of_missing_file_ignored:
  "(completedFiles (streamingState st) p = None \<longrightarrow>
      onFileClose env p st =
        st\<lparr>logged := logged st @
             [LogInfo (js ''Completed generation of file: '' @ p),
              LogError (js ''Completed file not found: '' @ p)]\<rparr>
      \<and> fixedFilePromises (onFileClose env p st) = fixedFilePromises st
      \<and> calls (onFileClose env p st) = calls st
      \<and> streamingState (onFileClose env p st) = streamingState st)
   \<and> (completedFiles (streamingState (runStream env xs initialState)) p = None \<longrightarrow>
        execute env (xs @ FileCloseEvent p # ys) = execute env (xs @ ys)
        \<and> calls (finalState env (xs @ FileCloseEvent p # ys)) = calls (finalState env (xs @ ys)))"
proof (intro conjI impI)
  assume "completedFiles (streamingState st) p = None"
  then show "onFileClose env p st =
        st\<lparr>logged := logged st @
             [LogInfo (js ''Completed generation of file: '' @ p),
              LogError (js ''Completed file not found: '' @ p)]\<rparr>"
    "fixedFilePromises (onFileClose env p st) = fixedFilePromises st"
    "calls (onFileClose env p st) = calls st"
    "streamingState (onFileClose env p st) = streamingState st"
    by (simp_all add: onFileClose_missing)
next
  let ?s = "runStream env xs initialState"
  assume missing: "completedFiles (streamingState ?s) p = None"
  have "unlogged (step env ?s (FileCloseEvent p)) = unlogged ?s"
    using missing by (simp add: onFileClose_missing unlogged_def)
  then have "unlogged (runStream env ys (step env ?s (FileCloseEvent p)))
      = unlogged (runStream env ys ?s)"
    by (rule unlogged_eq_run)
  then have "unlogged (finalState env (xs @ FileCloseEvent p # ys))
      = unlogged (finalState env (xs @ ys))"
    by (simp add: finalState_def runStream_append runStream_Cons)
  then have eqs:
    "streamingState (finalState env (xs @ FileCloseEvent p # ys))
        = streamingState (finalState env (xs @ ys))
      \<and> fixedFilePromises (finalState env (xs @ FileCloseEvent p # ys))
        = fixedFilePromises (finalState env (xs @ ys))
      \<and> calls (finalState env (xs @ FileCloseEvent p # ys)) = calls (finalState env (xs @ ys))"
    by (rule unlogged_fields)
  then show "execute env (xs @ FileCloseEvent p # ys) = execute env (xs @ ys)"
    by (simp add: execute_def Let_def)
  from eqs show "calls (finalState env (xs @ FileCloseEvent p # ys))
      = calls (finalState env (xs @ ys))"
    by simp
qed

theorem close_of_missing_file_ignored_witness:
  "completedFiles (streamingState initialState) (js ''a.py'') = None
   \<and> completedFiles (streamingState (runStream demoEnv [] initialState)) (js ''a.py'') = None
   \<and> fixedFilePromises (onFileClose demoEnv (js ''a.py'') initialState) = []
   \<and> calls (onFileClose demoEnv (js ''a.py'') initialState) = []
   \<and> logged (onFileClose demoEnv (js ''a.py'') initialState)
      = [LogInfo (js ''Completed generation of file: '' @ js ''a.py''),
         LogError (js ''Completed file not found: '' @ js ''a.py'')]
   \<and> execute demoEnv (FileCloseEvent (js ''a.py'') # demoRun) = execute demoEnv demoRun
   \<and> length (outFixedFilePromises (execute demoEnv (FileCloseEvent (js ''a.py'') # demoRun))) = 3"
  using close_of_missing_file_ignored [of initialState "js ''a.py''" demoEnv "[]" demoRun]
  by (simp add: runStream_Nil initialState_def demoRun_out)

section \<open>Properties of the streaming format parser\<close>

lemma splitOn_not_Nil: "splitOn sep s \<noteq> []"
  by (induction s) (auto split: list.splits)

lemma splitOn_append:
  "splitOn sep (x @ y) = butlast (splitOn sep x) @ splitOn sep (last (splitOn sep x) @ y)"
proof (induction x)
  case Nil
  show ?case by simp
next
  case (Cons c x)
  show ?case
  proof (cases "c = sep")
    case True
    then show ?thesis
      using Cons.IH by (simp add: splitOn_not_Nil)
  next
    case False
    obtain l ls where ls: "splitOn sep x = l # ls"
      using splitOn_not_Nil [of sep x] by (cases "splitOn sep x") auto
    show ?thesis
    proof (cases "ls = []")
      case True
      then show ?thesis
        using False ls Cons.IH by simp
    next
      case nonempty: False
      then show ?thesis
        using False ls Cons.IH by simp
    qed
  qed
qed

lemma splitOn_no_sep: "sep \<notin> set x \<Longrightarrow> splitOn sep x = [x]"
  by (induction x) auto

lemma splitOn_pieces: "l \<in> set (splitOn sep x) \<Longrightarrow> sep \<notin> set l"
  by (induction x arbitrary: l) (auto split: if_splits list.splits)

lemma processLine_lineBuffer:
  "processLine g x (st\<lparr>lineBuffer := b\<rparr>) = (processLine g x st)\<lparr>lineBuffer := b\<rparr>"
  by (simp add: processLine_def openFile_def closeFile_def commandLine_def contentLine_def
      split: marker.splits option.splits prod.splits)

lemma processLines_lineBuffer:
  "foldl (\<lambda>s line. processLine g line s) (st\<lparr>lineBuffer := b\<rparr>) ls
     = (foldl (\<lambda>s line. processLine g line s) st ls)\<lparr>lineBuffer := b\<rparr>"
  by (induction ls arbitrary: st) (simp_all add: processLine_lineBuffer)

lemma lineBuffer_processLines:
  "lineBuffer (foldl (\<lambda>s line. processLine g line s) st ls) = lineBuffer st"
proof (induction ls arbitrary: st)
  case Nil
  show ?case by simp
next
  case (Cons l ls)
  have "lineBuffer (processLine g l st) = lineBuffer st"
    by (simp add: processLine_def openFile_def closeFile_def commandLine_def contentLine_def
        split: marker.splits option.splits prod.splits)
  then show ?case using Cons.IH by simp
qed

lemma parseChunk_append: "parseChunk g (a @ b) st = parseChunk g b (parseChunk g a st)"
proof -
  let ?first = "splitOn NL (lineBuffer st @ a)"
  let ?second = "splitOn NL (last ?first @ b)"
  have pieces: "splitOn NL (lineBuffer st @ a @ b) = butlast ?first @ ?second"
    using splitOn_append [of NL "lineBuffer st @ a" b] by simp
  have ne: "?second \<noteq> []"
    by (rule splitOn_not_Nil)
  have "butlast (butlast ?first @ ?second) = butlast ?first @ butlast ?second"
    using ne by (simp add: butlast_append)
  moreover have "last (butlast ?first @ ?second) = last ?second"
    using ne by simp
  ultimately show ?thesis
    by (simp add: parseChunk_def Let_def pieces processLines_lineBuffer)
qed

lemma parseChunk_Nil: "NL \<notin> set (lineBuffer st) \<Longrightarrow> parseChunk g [] st = st"
  by (simp add: parseChunk_def splitOn_no_sep)

lemma lineBuffer_parseChunk: "NL \<notin> set (lineBuffer (parseChunk g chunk st))"
proof -
  have "last (splitOn NL (lineBuffer st @ chunk)) \<in> set (splitOn NL (lineBuffer st @ chunk))"
    by (simp add: splitOn_not_Nil)
  then show ?thesis
    by (simp add: parseChunk_def Let_def splitOn_pieces)
qed

lemma feedChunks_concat:
  "NL \<notin> set (lineBuffer st) \<Longrightarrow> feedChunks g chunks st = parseChunk g (concat chunks) st"
proof (induction chunks arbitrary: st)
  case Nil
  then show ?case by (simp add: feedChunks_def parseChunk_Nil)
next
  case (Cons c chunks)
  have "feedChunks g (c # chunks) st = feedChunks g chunks (parseChunk g c st)"
    by (simp add: feedChunks_def)
  also have "\<dots> = parseChunk g (concat chunks) (parseChunk g c st)"
    by (rule Cons.IH) (rule lineBuffer_parseChunk)
  finally show ?case
    by (simp add: parseChunk_append)
qed

lemma freshParserState_lineBuffer: "NL \<notin> set (lineBuffer freshParserState)"
  by (simp add: freshParserState_def)

text \<open>
  Claim C5: for every input text and every two ways of cutting it into a sequence of
  chunks, a cut inside a marker line included, feeding either sequence to a fresh
  parsing state gives the same sequence of file-open, content-chunk and file-close
  callback invocations and the same final completed-files map. This holds for every
  marker grammar; the two final states are equal as a whole, also from any other
  starting state whose buffer holds no line feed, as every state the parser reaches.
\<close>

theorem chunk_boundary_invariance:
  "concat chunks1 = concat chunks2 \<Longrightarrow>
     emitted (feedChunks g chunks1 freshParserState)
         = emitted (feedChunks g chunks2 freshParserState)
     \<and> completed (feedChunks g chunks1 freshParserState)
         = completed (feedChunks g chunks2 freshParserState)
     \<and> feedChunks g chunks1 freshParserState = feedChunks g chunks2 freshParserState
     \<and> (NL \<notin> set (lineBuffer st) \<longrightarrow> feedChunks g chunks1 st = feedChunks g chunks2 st)"
  by (simp add: feedChunks_concat freshParserState_lineBuffer)

lemma demo_emitted:
  "emitted (feedChunks demoGrammar [demoText] freshParserState)
     = [OnFileOpen (js ''a''), OnContentChunk (js ''a'') (js ''x'' @ [NL]) full_content,
        OnFileClose (js ''a'')]"
  by code_simp

lemma demoChunks_text: "concat demoChunks = demoText"
  by (simp add: demoChunks_def demoText_def js_def)

theorem chunk_boundary_invariance_witness:
  "concat demoChunks = concat [demoText]
   \<and> emitted (feedChunks demoGrammar demoChunks freshParserState)
      = [OnFileOpen (js ''a''), OnContentChunk (js ''a'') (js ''x'' @ [NL]) full_content,
         OnFileClose (js ''a'')]"
  using chunk_boundary_invariance [of demoChunks "[demoText]" demoGrammar freshParserState]
  by (simp add: demoChunks_text demo_emitted)

section \<open>Properties of the content reconciler\<close>

subsection \<open>Full content\<close>

lemma splitOn_line: "sep \<notin> set x \<Longrightarrow> splitOn sep (x @ sep # y) = x # splitOn sep y"
  by (induction x) (auto simp: splitOn_not_Nil split: list.splits)

lemma parseChunk_line:
  "NL \<notin> set (lineBuffer st) \<Longrightarrow> NL \<notin> set l \<Longrightarrow>
     parseChunk g (l @ NL # rest) st =
       parseChunk g rest ((processLine g (lineBuffer st @ l) st)\<lparr>lineBuffer := []\<rparr>)"
proof -
  assume free: "NL \<notin> set (lineBuffer st)" "NL \<notin> set l"
  then have "splitOn NL (lineBuffer st @ l @ [NL]) = [lineBuffer st @ l, []]"
    using splitOn_line [of NL "lineBuffer st @ l" "[]"] by simp
  then have "parseChunk g (l @ [NL]) st
      = (processLine g (lineBuffer st @ l) st)\<lparr>lineBuffer := []\<rparr>"
    by (simp add: parseChunk_def)
  then show ?thesis
    using parseChunk_append [of g "l @ [NL]" rest st] by simp
qed

lemma parseChunk_body:
  "currentFile st = Some (p, fmt) \<Longrightarrow> pendingFiles st p = Some pf \<Longrightarrow>
   \<not> inCommandBlock st \<Longrightarrow> lineBuffer st = [] \<Longrightarrow>
   \<forall>l \<in> set body. classify g l = NoMarker \<and> NL \<notin> set l \<Longrightarrow>
     parseChunk g (bodyText body @ rest) st =
       parseChunk g rest
         (st\<lparr>pendingFiles := (pendingFiles st)
                (p \<mapsto> pf\<lparr>pendingRaw := pendingRaw pf @ bodyText body\<rparr>),
             emitted := emitted st @ map (\<lambda>l. OnContentChunk p (l @ [NL]) fmt) body\<rparr>)"
proof (induction body arbitrary: st pf)
  case Nil
  then show ?case by (simp add: bodyText_def map_upd_triv)
next
  case (Cons l body)
  let ?st1 = "st\<lparr>pendingFiles := (pendingFiles st)
                  (p \<mapsto> pf\<lparr>pendingRaw := pendingRaw pf @ l @ [NL]\<rparr>),
                emitted := emitted st @ [OnContentChunk p (l @ [NL]) fmt]\<rparr>"
  have l: "classify g l = NoMarker" "NL \<notin> set l"
    using Cons.prems(5) by simp_all
  have line: "(processLine g (lineBuffer st @ l) st)\<lparr>lineBuffer := []\<rparr> = ?st1"
    using Cons.prems(1-4) l by (simp add: processLine_def contentLine_def)
  have "parseChunk g (bodyText (l # body) @ rest) st
      = parseChunk g (l @ NL # (bodyText body @ rest)) st"
    by (simp add: bodyText_def)
  also have "\<dots> = parseChunk g (bodyText body @ rest) ?st1"
    using parseChunk_line [of st l g "bodyText body @ rest"] l(2) Cons.prems(4) line by simp
  also have "\<dots> = parseChunk g rest
      (?st1\<lparr>pendingFiles := (pendingFiles ?st1)
               (p \<mapsto> (pf\<lparr>pendingRaw := pendingRaw pf @ l @ [NL]\<rparr>)
                  \<lparr>pendingRaw := pendingRaw (pf\<lparr>pendingRaw := pendingRaw pf @ l @ [NL]\<rparr>)
                     @ bodyText body\<rparr>),
            emitted := emitted ?st1 @ map (\<lambda>l. OnContentChunk p (l @ [NL]) fmt) body\<rparr>)"
    using Cons.prems by (intro Cons.IH) simp_all
  also have "\<dots> = parseChunk g rest
         (st\<lparr>pendingFiles := (pendingFiles st)
                (p \<mapsto> pf\<lparr>pendingRaw := pendingRaw pf @ bodyText (l # body)\<rparr>),
             emitted := emitted st @ map (\<lambda>l. OnContentChunk p (l @ [NL]) fmt) (l # body)\<rparr>)"
    by (simp add: bodyText_def)
  finally show ?case .
qed

lemma last_bodyText: "ls \<noteq> [] \<Longrightarrow> bodyText ls \<noteq> [] \<and> last (bodyText ls) = NL"
proof (induction ls)
  case Nil
  then show ?case by simp
next
  case (Cons l ls)
  have eq: "bodyText (l # ls) = (l @ [NL]) @ bodyText ls"
    by (simp add: bodyText_def)
  show ?case
  proof (cases "ls = []")
    case True
    then show ?thesis by (simp add: bodyText_def)
  next
    case False
    then show ?thesis using Cons.IH by (simp add: eq del: append_assoc)
  qed
qed

lemma normalize_bodyText: "normalizeTrailingNewline (bodyText ls) = joinLines ls"
proof (induction ls rule: joinLines.induct)
  case 1
  show ?case by (simp add: bodyText_def normalizeTrailingNewline_def)
next
  case (2 l)
  show ?case by (simp add: bodyText_def normalizeTrailingNewline_def)
next
  case (3 l m ls)
  have ne: "bodyText (m # ls) \<noteq> []"
    by (simp add: bodyText_def)
  have "last (bodyText (m # ls)) = NL"
    using last_bodyText [of "m # ls"] by simp
  then have "butlast (bodyText (m # ls)) = joinLines (m # ls)"
    using 3 ne by (simp add: normalizeTrailingNewline_def)
  moreover have "bodyText (l # m # ls) = l @ NL # bodyText (m # ls)"
    by (simp add: bodyText_def)
  moreover have "last (bodyText (l # m # ls)) = NL"
    using last_bodyText [of "l # m # ls"] by simp
  ultimately show ?case
    using ne by (simp add: normalizeTrailingNewline_def butlast_append)
qed

lemma parse_whole_file:
  assumes op: "classify g openLine = FileOpenMarker p fmt" "NL \<notin> set openLine"
    and cl: "classify g closeLine = FileCloseMarker" "NL \<notin> set closeLine"
    and body: "\<forall>l \<in> set body. classify g l = NoMarker \<and> NL \<notin> set l"
  shows "completed
      (parseChunk g (openLine @ [NL] @ bodyText body @ closeLine @ [NL]) freshParserState) p
      = Some \<lparr>filePath = p, fileContents = bodyText body, filePurpose = [], format = fmt\<rparr>"
proof -
  let ?pf = "\<lparr>pendingPath = p, pendingFormat = fmt, pendingRaw = []\<rparr>"
  let ?s1 = "(processLine g openLine freshParserState)\<lparr>lineBuffer := []\<rparr>"
  have s1: "currentFile ?s1 = Some (p, fmt)" "pendingFiles ?s1 p = Some ?pf"
      "\<not> inCommandBlock ?s1" "lineBuffer ?s1 = []"
    using op by (simp_all add: processLine_def openFile_def freshParserState_def)
  let ?s2 = "?s1\<lparr>pendingFiles := (pendingFiles ?s1)
                 (p \<mapsto> ?pf\<lparr>pendingRaw := pendingRaw ?pf @ bodyText body\<rparr>),
               emitted := emitted ?s1 @ map (\<lambda>l. OnContentChunk p (l @ [NL]) fmt) body\<rparr>"
  have "parseChunk g (openLine @ [NL] @ bodyText body @ closeLine @ [NL]) freshParserState
      = parseChunk g (bodyText body @ closeLine @ [NL]) ?s1"
    using parseChunk_line [of freshParserState openLine g "bodyText body @ closeLine @ [NL]"]
      op(2)
    by (simp add: freshParserState_def)
  also have "\<dots> = parseChunk g (closeLine @ [NL]) ?s2"
    using s1 body by (intro parseChunk_body) simp_all
  also have "\<dots> = (processLine g (lineBuffer ?s2 @ closeLine) ?s2)\<lparr>lineBuffer := []\<rparr>"
    using parseChunk_line [of ?s2 closeLine g "[]"] cl(2) parseChunk_Nil [of _ g]
    by simp
  finally show ?thesis
    using cl(1) s1 by (simp add: processLine_def closeFile_def)
qed

text \<open>
  Claim C6: a file opened with format \<open>full_content\<close> and closed with body \<open>B\<close> has
  the reconciled content \<open>B\<close> exactly, after the normalization of the trailing line
  feed. First part: for \<open>full_content\<close> the reconciler returns the raw body with one
  trailing line feed trimmed, whatever the prior content. Second part, through the
  parser: a stream made of an open marker line for path \<open>p\<close> with \<open>full_content\<close>,
  the lines of \<open>body\<close>, and a close marker line, cut into chunks in any way, completes
  \<open>p\<close> with format \<open>full_content\<close>, and reconciling the completed file gives the body
  lines joined by line feeds, that is the text between the two marker lines without
  the line feed that ends it.
\<close>

theorem full_content_round_trip:
  "reconcile full_content raw prior = Inr (normalizeTrailingNewline raw)
   \<and> (classify g openLine = FileOpenMarker p full_content \<and> NL \<notin> set openLine
       \<and> classify g closeLine = FileCloseMarker \<and> NL \<notin> set closeLine
       \<and> (\<forall>l \<in> set body. classify g l = NoMarker \<and> NL \<notin> set l)
       \<and> concat chunks = openLine @ [NL] @ concat (map (\<lambda>l. l @ [NL]) body) @ closeLine @ [NL]
      \<longrightarrow> (\<exists>f. completed (feedChunks g chunks freshParserState) p = Some f
             \<and> format f = full_content
             \<and> reconcile (format f) (fileContents f) prior = Inr (joinLines body)))"
proof (intro conjI impI)
  show "reconcile full_content raw prior = Inr (normalizeTrailingNewline raw)"
    by (simp add: reconcile_def)
next
  assume a: "classify g openLine = FileOpenMarker p full_content \<and> NL \<notin> set openLine
       \<and> classify g closeLine = FileCloseMarker \<and> NL \<notin> set closeLine
       \<and> (\<forall>l \<in> set body. classify g l = NoMarker \<and> NL \<notin> set l)
       \<and> concat chunks = openLine @ [NL] @ concat (map (\<lambda>l. l @ [NL]) body) @ closeLine @ [NL]"
  then have "completed (feedChunks g chunks freshParserState) p
      = Some \<lparr>filePath = p, fileContents = bodyText body, filePurpose = [],
          format = full_content\<rparr>"
    using parse_whole_file [of g openLine p full_content closeLine body]
    by (simp add: feedChunks_concat freshParserState_lineBuffer bodyText_def)
  then show "\<exists>f. completed (feedChunks g chunks freshParserState) p = Some f
             \<and> format f = full_content
             \<and> reconcile (format f) (fileContents f) prior = Inr (joinLines body)"
    by (simp add: reconcile_def normalize_bodyText)
qed

lemma demoGrammar_lines:
  "classify demoGrammar (js ''<open a>'') = FileOpenMarker (js ''a'') full_content"
  "classify demoGrammar (js ''<close>'') = FileCloseMarker"
  "classify demoGrammar (js ''x'') = NoMarker"
  "NL \<notin> set (js ''<open a>'')" "NL \<notin> set (js ''<close>'')" "NL \<notin> set (js ''x'')"
  by (simp_all add: demoGrammar_def js_def NL_def)

theorem full_content_round_trip_witness:
  "classify demoGrammar (js ''<open a>'') = FileOpenMarker (js ''a'') full_content
   \<and> classify demoGrammar (js ''<close>'') = FileCloseMarker
   \<and> classify demoGrammar (js ''x'') = NoMarker
   \<and> concat demoChunks
      = js ''<open a>'' @ [NL] @ concat (map (\<lambda>l. l @ [NL]) [js ''x'']) @ js ''<close>'' @ [NL]
   \<and> (\<exists>f. completed (feedChunks demoGrammar demoChunks freshParserState) (js ''a'') = Some f
         \<and> format f = full_content
         \<and> reconcile (format f) (fileContents f) (js ''old'') = Inr (js ''x''))"
  using full_content_round_trip [of "js ''x'' @ [NL]" "js ''old''" demoGrammar "js ''<open a>''"
      "js ''a''" "js ''<close>''" "[js ''x'']" demoChunks]
  by (simp add: demoGrammar_lines demoChunks_text demoText_def)

subsection \<open>Unified diffs\<close>






lemma onFileCloseRaising_returns:
  "onFileCloseRaising env (\<lambda>f original. Inr (processGeneratedFileContents env f original)) p st
     = (onFileClose env p st, None)"
  by (simp add: onFileCloseRaising_def onFileClose_def generatedFileOf_def processedFile_def
      Let_def split: option.splits)

text \<open>
  The example of the specification: on \<open>line1\<close>, \<open>line2\<close>, \<open>line3\<close> the diff that
  removes \<open>line2\<close> and adds \<open>lineX\<close> gives \<open>line1\<close>, \<open>lineX\<close>, \<open>line3\<close>.
\<close>

lemma demoDiff_applies:
  "reconcile unified_diff demoDiff (js ''line1'' @ [NL] @ js ''line2'' @ [NL] @ js ''line3'')
     = Inr (js ''line1'' @ [NL] @ js ''lineX'' @ [NL] @ js ''line3'')"
  by code_simp

text \<open>
  Two hunks: on \<open>a\<close>, \<open>b\<close> both blocks are lines of the prior content and the diff
  applies, the second hunk at the first line \<open>b\<close> it meets. On \<open>a\<close> alone the block
  of the second hunk does not occur in the prior content and the reconciliation fails,
  although the first hunk has written a line \<open>b\<close>.
\<close>

lemma demoTwoHunks_runs:
  "reconcile unified_diff demoTwoHunks (js ''a'' @ [NL] @ js ''b'') = Inr (js ''c'' @ [NL] @ js ''b'')"
  "reconcile unified_diff demoTwoHunks (js ''a'') = Inl PatchApplicationError"
  by code_simp+






end
